theory Spec2Isabelle
  imports Complex_Main "HOL-Library.Word"
begin

section \<open>JavaScript values as the component sees them\<close>

subsection \<open>Strings\<close>

text \<open>
  A JavaScript string is a sequence of UTF-16 code units. A code unit is modelled by its
  number; \<open>u\<close> turns an ASCII literal of the source into such a sequence.
\<close>

type_synonym jsstring = "nat list"

definition u :: "string \<Rightarrow> jsstring" where
  "u s = map of_char s"

text \<open>
  \<open>String.prototype.trim\<close> removes the code units of the productions WhiteSpace and
  LineTerminator of ECMAScript from both ends.
\<close>

definition is_whitespace :: "nat \<Rightarrow> bool" where
  "is_whitespace c =
     (c \<in> {0x09, 0x0A, 0x0B, 0x0C, 0x0D, 0x20, 0xA0, 0x1680,
            0x2028, 0x2029, 0x202F, 0x205F, 0x3000, 0xFEFF}
      \<or> (0x2000 \<le> c \<and> c \<le> 0x200A))"

definition trim :: "jsstring \<Rightarrow> jsstring" where
  "trim s = rev (dropWhile is_whitespace (rev (dropWhile is_whitespace s)))"

text \<open>\<open>Array.prototype.join\<close> on an array of strings.\<close>

fun join :: "jsstring \<Rightarrow> jsstring list \<Rightarrow> jsstring" where
  "join sep [] = []"
| "join sep [x] = x"
| "join sep (x # y # ys) = x @ sep @ join sep (y # ys)"

text \<open>\<open>String.prototype.replace(/"/g, '""')\<close>: every double quote is doubled.\<close>

definition double_quotes :: "jsstring \<Rightarrow> jsstring" where
  "double_quotes s = concat (map (\<lambda>c. if c = 0x22 then [0x22, 0x22] else [c]) s)"

subsection \<open>Numbers\<close>

text \<open>
  A finite number is modelled by its value, a rational. Two computations of the engine
  are not modelled and are taken from it as they are (\<open>engine\<close>):
  \<^item> \<open>number_text\<close>: \<open>Number::toString\<close> of a finite number that is not an integer of
    magnitude below \<open>2^53\<close> (the shortest digits that read back, exponent notation from
    \<open>10^21\<close> on);
  \<^item> \<open>percent_beyond\<close>: \<open>Math.round((loaded / total) * 100)\<close> when an operand is not an
    integer of magnitude below \<open>2^53\<close> (see \<open>percent\<close>).

  For an integer of magnitude below \<open>2^53\<close>, \<open>Number::toString\<close> writes the decimal
  digits, with a minus sign before a negative number.
\<close>

record engine =
  number_text :: "rat \<Rightarrow> jsstring"
  percent_beyond :: "int \<Rightarrow> int \<Rightarrow> int"

fun dec :: "nat \<Rightarrow> jsstring" where
  "dec n = (if n < 10 then [48 + n] else dec (n div 10) @ [48 + n mod 10])"

declare dec.simps [simp del]

definition safe_integer :: "rat \<Rightarrow> bool" where
  "safe_integer q = (of_int \<lfloor>q\<rfloor> = q \<and> \<bar>q\<bar> < 2 ^ 53)"

definition number_to_string :: "engine \<Rightarrow> rat \<Rightarrow> jsstring" where
  "number_to_string js q =
     (if safe_integer q
      then (if q < 0 then 0x2D # dec (nat (- \<lfloor>q\<rfloor>)) else dec (nat \<lfloor>q\<rfloor>))
      else number_text js q)"

subsection \<open>Parsed JSON\<close>

text \<open>
  What \<open>response.json()\<close> resolves to. An object is the list of its own properties in
  enumeration order. A number literal too large for a double is parsed as an infinity.
\<close>

datatype json =
    JNull
  | JBool bool
  | JNum rat
  | JInfinity
  | JNegInfinity
  | JStr jsstring
  | JArr "json list"
  | JObj "(jsstring \<times> json) list"

text \<open>An exception is known to the component by its \<open>message\<close> only.\<close>

datatype exn = Error jsstring | TypeError jsstring | SyntaxError jsstring

fun message :: "exn \<Rightarrow> jsstring" where
  "message (Error m) = m"
| "message (TypeError m) = m"
| "message (SyntaxError m) = m"

text \<open>
  A value of the program is a JSON value or \<open>undefined\<close> (\<open>None\<close>). Truthiness is that
  of \<open>ToBoolean\<close>.
\<close>

fun truthy :: "json option \<Rightarrow> bool" where
  "truthy None = False"
| "truthy (Some JNull) = False"
| "truthy (Some (JBool b)) = b"
| "truthy (Some (JNum n)) = (n \<noteq> 0)"
| "truthy (Some JInfinity) = True"
| "truthy (Some JNegInfinity) = True"
| "truthy (Some (JStr s)) = (s \<noteq> [])"
| "truthy (Some (JArr xs)) = True"
| "truthy (Some (JObj kvs)) = True"

text \<open>The operator \<open>a || b\<close>.\<close>

definition or_else :: "json option \<Rightarrow> json option \<Rightarrow> json option" where
  "or_else a b = (if truthy a then a else b)"

text \<open>
  Reading a property \<open>v.k\<close>, for the property names the component reads (none of them
  is defined by a built-in prototype): an object answers with its own property or with
  \<open>undefined\<close>, every other value but \<open>null\<close> with \<open>undefined\<close>, and reading a
  property of \<open>null\<close> throws (the wording of the message is the engine's).
\<close>

definition null_read_message :: "jsstring \<Rightarrow> jsstring" where
  "null_read_message k =
     u ''Cannot read properties of null (reading '' @ [0x27] @ k @ [0x27] @ u '')''"

fun get_prop :: "json \<Rightarrow> jsstring \<Rightarrow> exn + json option" where
  "get_prop JNull k = Inl (TypeError (null_read_message k))"
| "get_prop (JObj kvs) k = Inr (map_of kvs k)"
| "get_prop v k = Inr None"

text \<open>
  \<open>ToString\<close>, as a template literal and the \<open>Error\<close> constructor apply it. An array
  joins the strings of its elements with commas, \<open>null\<close> elements giving the empty
  string; an object without an own \<open>toString\<close> property is \<open>[object Object]\<close>, and one
  that has such a property (never callable in parsed JSON) cannot be converted.
\<close>

definition no_primitive_message :: jsstring where
  "no_primitive_message = u ''Cannot convert object to primitive value''"

fun to_string :: "engine \<Rightarrow> json \<Rightarrow> exn + jsstring"
  and elements_to_strings :: "engine \<Rightarrow> json list \<Rightarrow> exn + jsstring list" where
  "to_string js JNull = Inr (u ''null'')"
| "to_string js (JBool b) = Inr (if b then u ''true'' else u ''false'')"
| "to_string js (JNum n) = Inr (number_to_string js n)"
| "to_string js JInfinity = Inr (u ''Infinity'')"
| "to_string js JNegInfinity = Inr (u ''-Infinity'')"
| "to_string js (JStr s) = Inr s"
| "to_string js (JArr xs) =
     (case elements_to_strings js xs of Inl e \<Rightarrow> Inl e | Inr ss \<Rightarrow> Inr (join (u '','') ss))"
| "to_string js (JObj kvs) =
     (if u ''toString'' \<in> fst ` set kvs then Inl (TypeError no_primitive_message)
      else Inr (u ''[object Object]''))"
| "elements_to_strings js [] = Inr []"
| "elements_to_strings js (x # xs) =
     (case (if x = JNull then Inr [] else to_string js x) of
        Inl e \<Rightarrow> Inl e
      | Inr s \<Rightarrow> (case elements_to_strings js xs of Inl e \<Rightarrow> Inl e | Inr ss \<Rightarrow> Inr (s # ss)))"

text \<open>\<open>ToString\<close> of a value that may be \<open>undefined\<close>.\<close>

fun to_string_opt :: "engine \<Rightarrow> json option \<Rightarrow> exn + jsstring" where
  "to_string_opt js None = Inr (u ''undefined'')"
| "to_string_opt js (Some v) = to_string js v"

subsection \<open>\<open>JSON.stringify\<close>\<close>

text \<open>
  \<open>QuoteJSONString\<close>: the seven short escapes, \<open>\uXXXX\<close> with lowercase digits for
  the other control characters and for a surrogate that has no partner, and every other
  code unit as it is.
\<close>

definition hex_digit :: "nat \<Rightarrow> nat" where
  "hex_digit d = (if d < 10 then 48 + d else 87 + d)"

definition unicode_escape :: "nat \<Rightarrow> jsstring" where
  "unicode_escape c =
     [0x5C, 0x75, hex_digit (c div 4096 mod 16), hex_digit (c div 256 mod 16),
      hex_digit (c div 16 mod 16), hex_digit (c mod 16)]"

definition is_high_surrogate :: "nat \<Rightarrow> bool" where
  "is_high_surrogate c = (0xD800 \<le> c \<and> c \<le> 0xDBFF)"

definition is_low_surrogate :: "nat \<Rightarrow> bool" where
  "is_low_surrogate c = (0xDC00 \<le> c \<and> c \<le> 0xDFFF)"

definition quote_unit :: "nat \<Rightarrow> jsstring" where
  "quote_unit c =
     (if c = 0x08 then [0x5C, 0x62]
      else if c = 0x09 then [0x5C, 0x74]
      else if c = 0x0A then [0x5C, 0x6E]
      else if c = 0x0C then [0x5C, 0x66]
      else if c = 0x0D then [0x5C, 0x72]
      else if c = 0x22 then [0x5C, 0x22]
      else if c = 0x5C then [0x5C, 0x5C]
      else if c < 0x20 \<or> is_high_surrogate c \<or> is_low_surrogate c then unicode_escape c
      else [c])"

fun quote_units :: "jsstring \<Rightarrow> jsstring" where
  "quote_units [] = []"
| "quote_units [c] = quote_unit c"
| "quote_units (c # d # ds) =
     (if is_high_surrogate c \<and> is_low_surrogate d then c # d # quote_units ds
      else quote_unit c @ quote_units (d # ds))"

definition QuoteJSONString :: "jsstring \<Rightarrow> jsstring" where
  "QuoteJSONString s = [0x22] @ quote_units s @ [0x22]"

text \<open>
  \<open>SerializeJSONProperty\<close>, \<open>SerializeJSONArray\<close> and \<open>SerializeJSONObject\<close> on a
  parsed JSON value, with the gap string and the current indentation. Parsed JSON holds
  no function, so no \<open>toJSON\<close> method is ever called; a number that is not finite is
  written \<open>null\<close>.
\<close>

definition wrap_json :: "jsstring \<Rightarrow> jsstring \<Rightarrow> nat \<Rightarrow> nat \<Rightarrow> jsstring list \<Rightarrow> jsstring" where
  "wrap_json gap indent opening closing partial =
     (if partial = [] then [opening, closing]
      else if gap = [] then [opening] @ join (u '','') partial @ [closing]
      else [opening, 0x0A] @ (indent @ gap)
           @ join ([0x2C, 0x0A] @ (indent @ gap)) partial
           @ [0x0A] @ indent @ [closing])"

fun serialize :: "engine \<Rightarrow> jsstring \<Rightarrow> jsstring \<Rightarrow> json \<Rightarrow> jsstring"
  and serialize_elements :: "engine \<Rightarrow> jsstring \<Rightarrow> jsstring \<Rightarrow> json list \<Rightarrow> jsstring list"
  and serialize_properties :: "engine \<Rightarrow> jsstring \<Rightarrow> jsstring \<Rightarrow> (jsstring \<times> json) list \<Rightarrow> jsstring list" where
  "serialize js gap indent JNull = u ''null''"
| "serialize js gap indent (JBool b) = (if b then u ''true'' else u ''false'')"
| "serialize js gap indent (JNum n) = number_to_string js n"
| "serialize js gap indent JInfinity = u ''null''"
| "serialize js gap indent JNegInfinity = u ''null''"
| "serialize js gap indent (JStr s) = QuoteJSONString s"
| "serialize js gap indent (JArr xs) =
     wrap_json gap indent 0x5B 0x5D (serialize_elements js gap (indent @ gap) xs)"
| "serialize js gap indent (JObj kvs) =
     wrap_json gap indent 0x7B 0x7D (serialize_properties js gap (indent @ gap) kvs)"
| "serialize_elements js gap indent [] = []"
| "serialize_elements js gap indent (x # xs) =
     serialize js gap indent x # serialize_elements js gap indent xs"
| "serialize_properties js gap indent [] = []"
| "serialize_properties js gap indent ((k, v) # kvs) =
     (QuoteJSONString k @ [0x3A] @ (if gap = [] then [] else [0x20]) @ serialize js gap indent v)
       # serialize_properties js gap indent kvs"

text \<open>
  \<open>JSON.stringify(obj, null, space)\<close> of an object literal whose property values may be
  \<open>undefined\<close>: such a property is left out, the others keep the order of the literal.
  The gap is \<open>space\<close> blanks, at most ten.
\<close>

definition defined_properties :: "(jsstring \<times> json option) list \<Rightarrow> (jsstring \<times> json) list" where
  "defined_properties props = concat (map (\<lambda>(k, v). case v of None \<Rightarrow> [] | Some x \<Rightarrow> [(k, x)]) props)"

definition JSON_stringify :: "engine \<Rightarrow> (jsstring \<times> json option) list \<Rightarrow> nat \<Rightarrow> jsstring" where
  "JSON_stringify js props space =
     serialize js (replicate (min 10 space) 0x20) [] (JObj (defined_properties props))"

section \<open>State of the component and what it does to the outside\<close>

text \<open>The eight \<open>useState\<close> cells of \<open>SolidarityMediaHub\<close>, with their initial values.\<close>

record ui =
  mediaUrl :: jsstring
  metadata :: json
  loading :: bool
  downloading :: bool
  progress :: int
  error :: jsstring
  success :: jsstring
  solidarityName :: jsstring

definition initial_ui :: ui where
  "initial_ui =
     \<lparr>mediaUrl = [], metadata = JNull, loading = False, downloading = False,
      progress = 0, error = [], success = [], solidarityName = []\<rparr>"

type_synonym byte = "8 word"

text \<open>
  What an observer outside the component sees, in order: a \<open>fetch\<close> (URL and body of the
  POST request), a handler that is suspended at an \<open>await\<close> (with the state as the
  setters called so far have left it, which is what the page shows meanwhile), a call of
  \<open>setProgress\<close>, and a file offered to the user through a clicked link (\<open>download\<close>
  name and the content of the blob; for a text blob also its type).
\<close>

datatype event =
    Request jsstring jsstring
  | Suspended ui
  | Progress int
  | SaveBytes jsstring "byte list"
  | SaveText jsstring jsstring jsstring

text \<open>
  An operation is followed from its call to its end: the setters are applied in the order
  of their calls, the values a handler reads (\<open>mediaUrl\<close>, \<open>solidarityName\<close>,
  \<open>metadata\<close>) are those of the state it was called in, and no other handler runs in
  between.
\<close>

type_synonym world = "ui \<times> event list"

definition emit :: "event \<Rightarrow> world \<Rightarrow> world" where
  "emit e w = (fst w, snd w @ [e])"

text \<open>An \<open>await\<close>.\<close>

definition suspend :: "world \<Rightarrow> world" where
  "suspend w = emit (Suspended (fst w)) w"

definition setLoading :: "bool \<Rightarrow> world \<Rightarrow> world" where
  "setLoading b w = ((fst w)\<lparr>loading := b\<rparr>, snd w)"

definition setDownloading :: "bool \<Rightarrow> world \<Rightarrow> world" where
  "setDownloading b w = ((fst w)\<lparr>downloading := b\<rparr>, snd w)"

definition setError :: "jsstring \<Rightarrow> world \<Rightarrow> world" where
  "setError m w = ((fst w)\<lparr>error := m\<rparr>, snd w)"

definition setSuccess :: "jsstring \<Rightarrow> world \<Rightarrow> world" where
  "setSuccess m w = ((fst w)\<lparr>success := m\<rparr>, snd w)"

definition setMetadata :: "json \<Rightarrow> world \<Rightarrow> world" where
  "setMetadata d w = ((fst w)\<lparr>metadata := d\<rparr>, snd w)"

definition setProgress :: "int \<Rightarrow> world \<Rightarrow> world" where
  "setProgress n w = ((fst w)\<lparr>progress := n\<rparr>, snd w @ [Progress n])"

subsection \<open>The network\<close>

text \<open>
  What \<open>fetch\<close> settles with. A response is described by its status, by what
  \<open>headers.get('content-length')\<close> returns (\<open>None\<close> is \<open>null\<close>), by what
  \<open>response.json()\<close> settles with, and by what the successive \<open>reader.read()\<close> calls
  on its body settle with: a chunk each, until the stream is done (the end of the list)
  or a read is rejected.

  \<open>response.body\<close> is \<open>null\<close> for a response with a null body status (101, 103, 204,
  205, 304), and the stream of these reads for every other response.
\<close>

datatype json_result = Unparseable jsstring | Parsed json

datatype read_event = Chunk "byte list" | ReadError jsstring

record response =
  status :: nat
  content_length :: "jsstring option"
  json_body :: json_result
  body_reads :: "read_event list"

datatype fetch_outcome = Rejected jsstring | Resolved response

definition ok :: "response \<Rightarrow> bool" where
  "ok r = (200 \<le> status r \<and> status r \<le> 299)"

definition null_body_status :: "nat \<Rightarrow> bool" where
  "null_body_status n = (n = 101 \<or> n = 103 \<or> n = 204 \<or> n = 205 \<or> n = 304)"

definition response_body :: "response \<Rightarrow> read_event list option" where
  "response_body r = (if null_body_status (status r) then None else Some (body_reads r))"

section \<open>Formatter utilities\<close>

text \<open>
  Each formatter starts with a test \<open>!x\<close>. What it computes on a truthy argument is
  floating-point arithmetic and locale-dependent formatting; it is taken as a parameter
  (\<open>size_text\<close>, \<open>other_text\<close>, \<open>locale_text\<close>).
\<close>

definition formatFileSize :: "(json option \<Rightarrow> jsstring) \<Rightarrow> json option \<Rightarrow> jsstring" where
  "formatFileSize size_text bytes =
     (if \<not> truthy bytes then u ''Unknown'' else size_text bytes)"

definition formatDuration :: "(json option \<Rightarrow> jsstring) \<Rightarrow> json option \<Rightarrow> jsstring" where
  "formatDuration other_text seconds =
     (if \<not> truthy seconds then u ''N/A'' else other_text seconds)"

definition formatNumber :: "(json option \<Rightarrow> jsstring) \<Rightarrow> json option \<Rightarrow> jsstring" where
  "formatNumber locale_text num =
     (if \<not> truthy num then u ''0'' else locale_text num)"

section \<open>The metadata client\<close>

text \<open>
  The exception that \<open>throw new Error(data.error || fallback)\<close> ends with: reading
  \<open>error\<close> from \<open>null\<close> throws, and so can the conversion of the message to a string.
\<close>

definition thrown_error :: "engine \<Rightarrow> json \<Rightarrow> jsstring \<Rightarrow> exn" where
  "thrown_error js data fallback =
     (case get_prop data (u ''error'') of
        Inl e \<Rightarrow> e
      | Inr v \<Rightarrow>
          (case to_string_opt js (or_else v (Some (JStr fallback))) of
             Inl e \<Rightarrow> e
           | Inr m \<Rightarrow> Error m))"

definition metadata_request :: "engine \<Rightarrow> jsstring \<Rightarrow> ui \<Rightarrow> event" where
  "metadata_request js api s =
     Request (api @ u ''/metadata'')
       (JSON_stringify js
          [(u ''url'', Some (JStr (trim (mediaUrl s)))),
           (u ''solidarity'', Some (JStr (trim (solidarityName s))))] 0)"

text \<open>The four setters that open an attempt of \<open>fetchMetadata\<close>.\<close>

definition fetch_begin :: "world \<Rightarrow> world" where
  "fetch_begin w = setMetadata JNull (setSuccess [] (setError [] (setLoading True w)))"

text \<open>
  The \<open>try\<close> block of \<open>fetchMetadata\<close>: the world it leaves, and the exception it
  throws if it does. \<open>s\<close> is the state the closure was created with. The handler is
  suspended at \<open>await fetch(...)\<close> and at \<open>await response.json()\<close>.
\<close>

definition fetch_try :: "engine \<Rightarrow> jsstring \<Rightarrow> ui \<Rightarrow> fetch_outcome \<Rightarrow> world \<Rightarrow> world \<times> exn option" where
  "fetch_try js api s net w =
     (let w1 = suspend (emit (metadata_request js api s) w)
      in case net of
           Rejected m \<Rightarrow> (w1, Some (TypeError m))
         | Resolved r \<Rightarrow>
             (let w2 = suspend w1
              in case json_body r of
                   Unparseable m \<Rightarrow> (w2, Some (SyntaxError m))
                 | Parsed data \<Rightarrow>
                     if \<not> ok r
                     then (w2, Some (thrown_error js data (u ''Failed to fetch metadata'')))
                     else (setSuccess (u ''Media information loaded successfully!'')
                             (setMetadata data w2), None)))"

text \<open>\<open>catch (err) { setError(err.message) }\<close>.\<close>

definition catch_error :: "world \<times> exn option \<Rightarrow> world" where
  "catch_error r = (case snd r of None \<Rightarrow> fst r | Some e \<Rightarrow> setError (message e) (fst r))"

definition fetchMetadata :: "engine \<Rightarrow> jsstring \<Rightarrow> fetch_outcome \<Rightarrow> world \<Rightarrow> world" where
  "fetchMetadata js api net w =
     (let s = fst w
      in if trim (mediaUrl s) = [] then setError (u ''Please enter a valid media URL'') w
         else if trim (solidarityName s) = []
           then setError (u ''Please enter the solidarity campaign name'') w
         else setLoading False (catch_error (fetch_try js api s net (fetch_begin w))))"

section \<open>The streaming download client\<close>

text \<open>
  \<open>parseInt(string, 10)\<close>: leading white space is skipped, a sign is read, then the
  longest run of decimal digits; \<open>None\<close> is \<open>NaN\<close>. \<open>null\<close> is first converted to the
  string \<open>null\<close>. The value is the integer the digits denote; JavaScript rounds it to a
  double, which leaves every integer of magnitude below \<open>2^53\<close> as it is and turns no
  other integer into zero.
\<close>

definition is_digit :: "nat \<Rightarrow> bool" where
  "is_digit c = (0x30 \<le> c \<and> c \<le> 0x39)"

definition digits_value :: "jsstring \<Rightarrow> nat" where
  "digits_value ds = foldl (\<lambda>a c. 10 * a + (c - 0x30)) 0 ds"

definition parseInt10 :: "jsstring option \<Rightarrow> int option" where
  "parseInt10 arg =
     (let str = (case arg of None \<Rightarrow> u ''null'' | Some x \<Rightarrow> x);
          S = dropWhile is_whitespace str;
          sign = (case S of c # cs \<Rightarrow> if c = 0x2D then - 1 else 1 | [] \<Rightarrow> (1::int));
          S' = (case S of c # cs \<Rightarrow> if c = 0x2B \<or> c = 0x2D then cs else S | [] \<Rightarrow> []);
          Z = takeWhile is_digit S'
      in if Z = [] then None else Some (sign * int (digits_value Z)))"

subsection \<open>Arithmetic in doubles\<close>

text \<open>
  The binary exponent of a positive rational: \<open>2^e \<le> x < 2^(e + 1)\<close>.
\<close>

function expo :: "rat \<Rightarrow> int" where
  "expo x = (if 2 \<le> x then expo (x / 2) + 1 else if 0 < x \<and> x < 1 then expo (2 * x) - 1 else 0)"
  by pat_completeness auto
termination
proof (relation "measure (\<lambda>x. if 1 \<le> x then nat \<lfloor>x\<rfloor> else nat \<lceil>1 / x\<rceil> + 1)")
  show "wf (measure (\<lambda>x::rat. if 1 \<le> x then nat \<lfloor>x\<rfloor> else nat \<lceil>1 / x\<rceil> + 1))"
    by simp
next
  fix x :: rat
  assume "2 \<le> x"
  then have "\<lfloor>x / 2\<rfloor> < \<lfloor>x\<rfloor>" and "0 < \<lfloor>x\<rfloor>" by linarith+
  with \<open>2 \<le> x\<close>
  show "(x / 2, x) \<in> measure (\<lambda>x. if 1 \<le> x then nat \<lfloor>x\<rfloor> else nat \<lceil>1 / x\<rceil> + 1)"
    by auto
next
  fix x :: rat
  assume a: "\<not> 2 \<le> x" "0 < x \<and> x < 1"
  then have y: "1 < 1 / x" by simp
  then have c2: "2 \<le> \<lceil>1 / x\<rceil>" by linarith
  show "(2 * x, x) \<in> measure (\<lambda>x. if 1 \<le> x then nat \<lfloor>x\<rfloor> else nat \<lceil>1 / x\<rceil> + 1)"
  proof (cases "1 \<le> 2 * x")
    case True
    with a have "\<lfloor>2 * x\<rfloor> = 1" by linarith
    with True a c2 show ?thesis by auto
  next
    case False
    define y where "y = 1 / x"
    have y2: "1 / (2 * x) = y / 2" by (simp add: y_def)
    have "y / 2 \<le> of_int \<lceil>y\<rceil> / 2" by simp
    also have "\<dots> \<le> of_int (\<lceil>y\<rceil> - 1)" using c2 unfolding y_def [symmetric] by simp
    finally have "\<lceil>y / 2\<rceil> \<le> \<lceil>y\<rceil> - 1" by (simp only: ceiling_le_iff)
    then have "\<lceil>1 / (2 * x)\<rceil> < \<lceil>1 / x\<rceil>" unfolding y2 y_def by simp
    moreover have "0 < \<lceil>1 / x\<rceil>" using c2 by linarith
    ultimately show ?thesis using False a by auto
  qed
qed

declare expo.simps [simp del]

text \<open>
  Rounding to the nearest integer, a tie going to the even one, and with it the rounding
  of a rational to the nearest number with a significand of 53 bits, which is the
  rounding of every operation on doubles as long as the result is neither too large nor
  too small for a normal double.
\<close>

definition round_even :: "rat \<Rightarrow> int" where
  "round_even q =
     (let f = \<lfloor>q\<rfloor>; r = q - of_int f
      in if r < 1 / 2 then f else if 1 / 2 < r then f + 1 else if even f then f else f + 1)"

definition nearest_double :: "rat \<Rightarrow> rat" where
  "nearest_double x =
     (if x = 0 then 0
      else sgn x * of_int (round_even (\<bar>x\<bar> * 2 powi (52 - expo \<bar>x\<bar>))) * 2 powi (expo \<bar>x\<bar> - 52))"

text \<open>
  \<open>Math.round\<close> of a double is the nearest integer, a half going up; no rounding error
  occurs in it.
\<close>

definition js_round :: "rat \<Rightarrow> int" where
  "js_round x = \<lfloor>x + 1 / 2\<rfloor>"

text \<open>
  \<open>Math.round((loaded / total) * 100)\<close>: the quotient is rounded to a double, and so is
  its product with 100. When both operands are integers of magnitude below \<open>2^53\<close>, they
  are doubles themselves and both results are normal doubles; otherwise the value is the
  engine's.
\<close>

definition percent :: "engine \<Rightarrow> int \<Rightarrow> int \<Rightarrow> int" where
  "percent js loaded tot =
     (if tot \<noteq> 0 \<and> \<bar>loaded\<bar> < 2 ^ 53 \<and> \<bar>tot\<bar> < 2 ^ 53
      then js_round (nearest_double (nearest_double (of_int loaded / of_int tot) * 100))
      else percent_beyond js loaded tot)"

subsection \<open>The download\<close>

text \<open>
  The \<open>while (true)\<close> loop, from the reads that are still to come, with the local
  variables \<open>chunks\<close> and \<open>loaded\<close>; \<open>tot\<close> is the variable \<open>total\<close>, and the test
  \<open>if (total)\<close> fails for \<open>NaN\<close> and for zero. The handler is suspended at each
  \<open>await reader.read()\<close>. The loop ends when a read says \<open>done\<close>, with the chunks, or
  when a read is rejected, with the exception.
\<close>

fun read_loop :: "engine \<Rightarrow> int option \<Rightarrow> read_event list \<Rightarrow> byte list list \<Rightarrow> int \<Rightarrow> world
    \<Rightarrow> world \<times> (exn + byte list list)" where
  "read_loop js tot [] chunks loaded w = (suspend w, Inr chunks)"
| "read_loop js tot (ReadError m # reads) chunks loaded w = (suspend w, Inl (TypeError m))"
| "read_loop js tot (Chunk v # reads) chunks loaded w =
     (let w0 = suspend w;
          chunks' = chunks @ [v];
          loaded' = loaded + int (length v);
          w' = (case tot of
                  None \<Rightarrow> w0
                | Some t \<Rightarrow> if t = 0 then w0 else setProgress (percent js loaded' t) w0)
      in read_loop js tot reads chunks' loaded' w')"

text \<open>\<open>new Blob(chunks)\<close>: the bytes of the chunks, one after the other.\<close>

definition Blob :: "byte list list \<Rightarrow> byte list" where
  "Blob chunks = concat chunks"

text \<open>\<open>metadata?.k\<close>: \<open>undefined\<close> when \<open>metadata\<close> is \<open>null\<close>.\<close>

definition optional_prop :: "json \<Rightarrow> jsstring \<Rightarrow> json option" where
  "optional_prop v k = (case get_prop v k of Inl e \<Rightarrow> None | Inr x \<Rightarrow> x)"

text \<open>
  The name
  \<^verbatim>\<open>`${solidarityName}_${metadata?.title || 'media'}.${metadata?.extension || 'mp4'}`\<close>.
\<close>

definition media_filename :: "engine \<Rightarrow> ui \<Rightarrow> exn + jsstring" where
  "media_filename js s =
     (case to_string_opt js (or_else (optional_prop (metadata s) (u ''title'')) (Some (JStr (u ''media'')))) of
        Inl e \<Rightarrow> Inl e
      | Inr t \<Rightarrow>
          (case to_string_opt js (or_else (optional_prop (metadata s) (u ''extension'')) (Some (JStr (u ''mp4'')))) of
             Inl e \<Rightarrow> Inl e
           | Inr x \<Rightarrow> Inr (solidarityName s @ u ''_'' @ t @ u ''.'' @ x)))"

definition download_request :: "engine \<Rightarrow> jsstring \<Rightarrow> jsstring \<Rightarrow> ui \<Rightarrow> event" where
  "download_request js api quality s =
     Request (api @ u ''/download'')
       (JSON_stringify js
          [(u ''url'', Some (JStr (trim (mediaUrl s)))),
           (u ''solidarity'', Some (JStr (trim (solidarityName s)))),
           (u ''quality'', Some (JStr quality))] 0)"

text \<open>The three setters that open \<open>downloadMedia\<close>.\<close>

definition download_begin :: "world \<Rightarrow> world" where
  "download_begin w = setProgress 0 (setError [] (setDownloading True w))"

text \<open>
  The \<open>try\<close> block of \<open>downloadMedia\<close>. The handler is suspended at
  \<open>await fetch(...)\<close> and, for a failure response, at \<open>await response.json()\<close>. For a
  successful response, \<open>response.body.getReader()\<close> throws when the body is \<open>null\<close>.
\<close>

definition download_try :: "engine \<Rightarrow> jsstring \<Rightarrow> jsstring \<Rightarrow> ui \<Rightarrow> fetch_outcome \<Rightarrow> world
    \<Rightarrow> world \<times> exn option" where
  "download_try js api quality s net w =
     (let w1 = suspend (emit (download_request js api quality s) w)
      in case net of
           Rejected m \<Rightarrow> (w1, Some (TypeError m))
         | Resolved r \<Rightarrow>
             if \<not> ok r then
               (let w2 = suspend w1
                in case json_body r of
                     Unparseable m \<Rightarrow> (w2, Some (SyntaxError m))
                   | Parsed data \<Rightarrow> (w2, Some (thrown_error js data (u ''Download failed''))))
             else
               (let tot = parseInt10 (content_length r)
                in case response_body r of
                     None \<Rightarrow> (w1, Some (TypeError (null_read_message (u ''getReader''))))
                   | Some reads \<Rightarrow>
                       (case read_loop js tot reads [] 0 w1 of
                          (w2, Inl e) \<Rightarrow> (w2, Some e)
                        | (w2, Inr chunks) \<Rightarrow>
                            (case media_filename js s of
                               Inl e \<Rightarrow> (w2, Some e)
                             | Inr name \<Rightarrow>
                                 (setProgress 100
                                    (setSuccess (u ''Media archived successfully for the movement!'')
                                       (emit (SaveBytes name (Blob chunks)) w2)), None)))))"

definition downloadMedia :: "engine \<Rightarrow> jsstring \<Rightarrow> jsstring \<Rightarrow> fetch_outcome \<Rightarrow> world \<Rightarrow> world" where
  "downloadMedia js api quality net w =
     setDownloading False (catch_error (download_try js api quality (fst w) net (download_begin w)))"

section \<open>The export encoder\<close>

text \<open>
  Both exports start with \<open>if (!metadata) return\<close>; past this test \<open>metadata\<close> is not
  \<open>null\<close>, and reading a property of it (\<open>optional_prop\<close>) never throws. An exception
  that leaves an export is not caught by the component: no file is offered and no state
  changes (\<open>Inl\<close>). \<open>now\<close> is what \<open>new Date().toISOString()\<close> returns.
\<close>

definition and_then :: "exn + 'a \<Rightarrow> ('a \<Rightarrow> exn + 'b) \<Rightarrow> exn + 'b" where
  "and_then r f = (case r of Inl e \<Rightarrow> Inl e | Inr x \<Rightarrow> f x)"

text \<open>The object literal \<open>data\<close> of \<open>downloadMetadataJSON\<close>.\<close>

definition json_export_data :: "jsstring \<Rightarrow> ui \<Rightarrow> (jsstring \<times> json option) list" where
  "json_export_data now s =
     [(u ''solidarity_campaign'', Some (JStr (solidarityName s))),
      (u ''platform'', or_else (optional_prop (metadata s) (u ''platform'')) (Some (JStr (u ''unknown'')))),
      (u ''title'', optional_prop (metadata s) (u ''title'')),
      (u ''uploader'', optional_prop (metadata s) (u ''uploader'')),
      (u ''url'', optional_prop (metadata s) (u ''url'')),
      (u ''description'', optional_prop (metadata s) (u ''description'')),
      (u ''duration'', optional_prop (metadata s) (u ''duration'')),
      (u ''viewCount'', optional_prop (metadata s) (u ''viewCount'')),
      (u ''likeCount'', optional_prop (metadata s) (u ''likeCount'')),
      (u ''thumbnail'', optional_prop (metadata s) (u ''thumbnail'')),
      (u ''archived_at'', Some (JStr now))]"

definition downloadMetadataJSON :: "engine \<Rightarrow> jsstring \<Rightarrow> world \<Rightarrow> exn + world" where
  "downloadMetadataJSON js now w =
     (let s = fst w
      in if \<not> truthy (Some (metadata s)) then Inr w
         else
           (let text = JSON_stringify js (json_export_data now s) 2
            in and_then (to_string_opt js (optional_prop (metadata s) (u ''platform''))) (\<lambda>platform.
                 Inr (emit (SaveText (solidarityName s @ u ''_'' @ platform @ u ''_metadata.json'')
                              (u ''application/json'') text) w))))"

text \<open>
  \<open>(metadata.title || '').replace(/"/g, '""')\<close>: only a string has a method
  \<open>replace\<close>.
\<close>

definition not_a_function_message :: jsstring where
  "not_a_function_message = u ''(intermediate value).replace is not a function''"

fun replace_quotes :: "json option \<Rightarrow> exn + jsstring" where
  "replace_quotes (Some (JStr t)) = Inr (double_quotes t)"
| "replace_quotes v = Inl (TypeError not_a_function_message)"

text \<open>The array of lines of \<open>downloadMetadataCSV\<close>, element after element.\<close>

definition csv_lines :: "engine \<Rightarrow> jsstring \<Rightarrow> ui \<Rightarrow> exn + jsstring list" where
  "csv_lines js now s =
     and_then (to_string_opt js (or_else (optional_prop (metadata s) (u ''platform'')) (Some (JStr (u ''unknown''))))) (\<lambda>platform.
     and_then (replace_quotes (or_else (optional_prop (metadata s) (u ''title'')) (Some (JStr [])))) (\<lambda>title.
     and_then (to_string_opt js (or_else (optional_prop (metadata s) (u ''uploader'')) (Some (JStr (u ''Unknown''))))) (\<lambda>uploader.
     and_then (to_string_opt js (optional_prop (metadata s) (u ''url''))) (\<lambda>url.
     and_then (to_string_opt js (or_else (optional_prop (metadata s) (u ''viewCount'')) (Some (JNum 0)))) (\<lambda>views.
     and_then (to_string_opt js (or_else (optional_prop (metadata s) (u ''likeCount'')) (Some (JNum 0)))) (\<lambda>likes.
     and_then (to_string_opt js (or_else (optional_prop (metadata s) (u ''duration'')) (Some (JNum 0)))) (\<lambda>duration.
       Inr [u ''Field,Value'',
            u ''Solidarity Campaign,'' @ [0x22] @ solidarityName s @ [0x22],
            u ''Platform,'' @ platform,
            u ''Title,'' @ [0x22] @ title @ [0x22],
            u ''Uploader,'' @ uploader,
            u ''URL,'' @ url,
            u ''Views,'' @ views,
            u ''Likes,'' @ likes,
            u ''Duration,'' @ duration,
            u ''Archived At,'' @ now])))))))"

definition downloadMetadataCSV :: "engine \<Rightarrow> jsstring \<Rightarrow> world \<Rightarrow> exn + world" where
  "downloadMetadataCSV js now w =
     (let s = fst w
      in if \<not> truthy (Some (metadata s)) then Inr w
         else
           and_then (csv_lines js now s) (\<lambda>lines.
           and_then (to_string_opt js (optional_prop (metadata s) (u ''platform''))) (\<lambda>platform.
             Inr (emit (SaveText (solidarityName s @ u ''_'' @ platform @ u ''_metadata.csv'')
                          (u ''text/csv'') (join [0x0A] lines)) w))))"

section \<open>The data model of the interface\<close>

text \<open>
  A well-formed \<open>MediaMetadata\<close>: an object with a string \<open>url\<close>, in which each of
  the other textual fields is a string when present, the duration a non-negative number
  of seconds when present, and each of the counts and the size a non-negative integer
  when present.
\<close>

definition text_or_absent :: "json option \<Rightarrow> bool" where
  "text_or_absent v = (case v of None \<Rightarrow> True | Some (JStr t) \<Rightarrow> True | Some x \<Rightarrow> False)"

definition seconds_or_absent :: "json option \<Rightarrow> bool" where
  "seconds_or_absent v = (case v of None \<Rightarrow> True | Some (JNum n) \<Rightarrow> 0 \<le> n | Some x \<Rightarrow> False)"

definition count_or_absent :: "json option \<Rightarrow> bool" where
  "count_or_absent v =
     (case v of None \<Rightarrow> True | Some (JNum n) \<Rightarrow> 0 \<le> n \<and> of_int \<lfloor>n\<rfloor> = n | Some x \<Rightarrow> False)"

definition well_formed :: "json \<Rightarrow> bool" where
  "well_formed m =
     (case m of
        JObj kvs \<Rightarrow>
          (case map_of kvs (u ''url'') of Some (JStr x) \<Rightarrow> True | other \<Rightarrow> False)
          \<and> list_all (\<lambda>k. text_or_absent (map_of kvs k))
                [u ''title'', u ''uploader'', u ''platform'', u ''description'', u ''thumbnail'',
                 u ''mimeType'', u ''extension'', u ''filename'']
          \<and> seconds_or_absent (map_of kvs (u ''duration''))
          \<and> list_all (\<lambda>k. count_or_absent (map_of kvs k))
                [u ''viewCount'', u ''likeCount'', u ''size'']
      | other \<Rightarrow> False)"

text \<open>
  The text of a field of such a value in a CSV line: the string, or the default when the
  field is missing or empty; the text of the number, or \<open>0\<close> when the field is missing.
\<close>

definition text_or :: "jsstring \<Rightarrow> json option \<Rightarrow> jsstring" where
  "text_or dflt v = (case v of Some (JStr t) \<Rightarrow> if t = [] then dflt else t | other \<Rightarrow> dflt)"

definition number_or_zero :: "engine \<Rightarrow> json option \<Rightarrow> jsstring" where
  "number_or_zero js v = (case v of Some (JNum n) \<Rightarrow> number_to_string js n | other \<Rightarrow> u ''0'')"

text \<open>The text of a textual field inside a template literal, without any default.\<close>

definition plain_text :: "json option \<Rightarrow> jsstring" where
  "plain_text v = (case v of Some (JStr t) \<Rightarrow> t | other \<Rightarrow> u ''undefined'')"

subsection \<open>Reading a CSV record back\<close>

text \<open>
  The reader of one record, after RFC 4180: fields are separated by commas; a field that
  starts with a double quote runs to the closing quote, two quotes inside it standing for
  one; a quote inside a field that did not start with one, or anything but a comma after
  a closing quote, makes the record unreadable (\<open>None\<close>).
\<close>

datatype csv_state = FieldStart | Unquoted | Quoted | QuoteSeen

fun csv_scan :: "csv_state \<Rightarrow> jsstring \<Rightarrow> jsstring list \<Rightarrow> jsstring \<Rightarrow> jsstring list option" where
  "csv_scan st cur fs [] = (if st = Quoted then None else Some (fs @ [cur]))"
| "csv_scan FieldStart cur fs (c # cs) =
     (if c = 0x22 then csv_scan Quoted [] fs cs
      else if c = 0x2C then csv_scan FieldStart [] (fs @ [cur]) cs
      else csv_scan Unquoted [c] fs cs)"
| "csv_scan Unquoted cur fs (c # cs) =
     (if c = 0x22 then None
      else if c = 0x2C then csv_scan FieldStart [] (fs @ [cur]) cs
      else csv_scan Unquoted (cur @ [c]) fs cs)"
| "csv_scan Quoted cur fs (c # cs) =
     (if c = 0x22 then csv_scan QuoteSeen cur fs cs
      else csv_scan Quoted (cur @ [c]) fs cs)"
| "csv_scan QuoteSeen cur fs (c # cs) =
     (if c = 0x22 then csv_scan Quoted (cur @ [0x22]) fs cs
      else if c = 0x2C then csv_scan FieldStart [] (fs @ [cur]) cs
      else None)"

definition read_csv_record :: "jsstring \<Rightarrow> jsstring list option" where
  "read_csv_record line = csv_scan FieldStart [] [] line"

text \<open>A field written the escaped way: in quotes, the quotes inside doubled.\<close>

definition csv_escaped :: "jsstring \<Rightarrow> jsstring" where
  "csv_escaped v = [0x22] @ double_quotes v @ [0x22]"

text \<open>
  The reader of a whole file, with the same rules: a line feed ends a record, except
  inside quotes, where it belongs to the field.
\<close>

fun csv_table_scan :: "csv_state \<Rightarrow> jsstring \<Rightarrow> jsstring list \<Rightarrow> jsstring list list \<Rightarrow> jsstring
    \<Rightarrow> jsstring list list option" where
  "csv_table_scan st cur fs rows [] = (if st = Quoted then None else Some (rows @ [fs @ [cur]]))"
| "csv_table_scan FieldStart cur fs rows (c # cs) =
     (if c = 0x22 then csv_table_scan Quoted [] fs rows cs
      else if c = 0x2C then csv_table_scan FieldStart [] (fs @ [cur]) rows cs
      else if c = 0x0A then csv_table_scan FieldStart [] [] (rows @ [fs @ [cur]]) cs
      else csv_table_scan Unquoted [c] fs rows cs)"
| "csv_table_scan Unquoted cur fs rows (c # cs) =
     (if c = 0x22 then None
      else if c = 0x2C then csv_table_scan FieldStart [] (fs @ [cur]) rows cs
      else if c = 0x0A then csv_table_scan FieldStart [] [] (rows @ [fs @ [cur]]) cs
      else csv_table_scan Unquoted (cur @ [c]) fs rows cs)"
| "csv_table_scan Quoted cur fs rows (c # cs) =
     (if c = 0x22 then csv_table_scan QuoteSeen cur fs rows cs
      else csv_table_scan Quoted (cur @ [c]) fs rows cs)"
| "csv_table_scan QuoteSeen cur fs rows (c # cs) =
     (if c = 0x22 then csv_table_scan Quoted (cur @ [0x22]) fs rows cs
      else if c = 0x2C then csv_table_scan FieldStart [] (fs @ [cur]) rows cs
      else if c = 0x0A then csv_table_scan FieldStart [] [] (rows @ [fs @ [cur]]) cs
      else None)"

definition read_csv :: "jsstring \<Rightarrow> jsstring list list option" where
  "read_csv text = csv_table_scan FieldStart [] [] [] text"

section \<open>Reading the log\<close>

text \<open>
  The artifacts handed to the user, the values given to \<open>setProgress\<close>, the requests and
  the states at the suspensions, each in order.
\<close>

fun artifacts :: "event list \<Rightarrow> byte list list" where
  "artifacts [] = []"
| "artifacts (SaveBytes name bytes # es) = bytes # artifacts es"
| "artifacts (e # es) = artifacts es"

fun reports :: "event list \<Rightarrow> int list" where
  "reports [] = []"
| "reports (Progress n # es) = n # reports es"
| "reports (e # es) = reports es"

fun requests :: "event list \<Rightarrow> (jsstring \<times> jsstring) list" where
  "requests [] = []"
| "requests (Request url body # es) = (url, body) # requests es"
| "requests (e # es) = requests es"

fun suspensions :: "event list \<Rightarrow> ui list" where
  "suspensions [] = []"
| "suspensions (Suspended s # es) = s # suspensions es"
| "suspensions (e # es) = suspensions es"

text \<open>The chunks a body delivers before it is done or a read fails.\<close>

fun delivered :: "read_event list \<Rightarrow> byte list list" where
  "delivered [] = []"
| "delivered (ReadError m # reads) = []"
| "delivered (Chunk v # reads) = v # delivered reads"

text \<open>The values \<open>loaded\<close> takes while the chunks arrive.\<close>

fun running :: "int \<Rightarrow> byte list list \<Rightarrow> int list" where
  "running loaded [] = []"
| "running loaded (v # vs) = (loaded + int (length v)) # running (loaded + int (length v)) vs"

text \<open>What the loop gives to \<open>setProgress\<close> for these values, when \<open>total\<close> is truthy.\<close>

definition loop_reports :: "engine \<Rightarrow> int option \<Rightarrow> int \<Rightarrow> byte list list \<Rightarrow> int list" where
  "loop_reports js tot loaded vs =
     (case tot of
        None \<Rightarrow> []
      | Some t \<Rightarrow> if t = 0 then [] else map (\<lambda>l. percent js l t) (running loaded vs))"

section \<open>Concrete inputs\<close>

text \<open>
  An engine for the concrete inputs below; none of them holds a number that reaches one
  of its two functions.
\<close>

definition example_engine :: engine where
  "example_engine = \<lparr>number_text = (\<lambda>q. []), percent_beyond = (\<lambda>loaded tot. 0)\<rparr>"

text \<open>
  A state after a successful metadata fetch (\<open>example_ui\<close>: the form as the user filled
  it, \<open>typed_ui\<close>, and the response that was stored), and a successful download response
  that delivers five bytes in three chunks, one of them empty.
\<close>

definition example_ui :: ui where
  "example_ui =
     \<lparr>mediaUrl = u ''https://example.com/v/1'',
      metadata = JObj [(u ''title'', JStr (u ''Rally'')), (u ''uploader'', JStr (u ''ActivistOrg'')),
                       (u ''url'', JStr (u ''https://example.com/v/1'')), (u ''viewCount'', JNum 1500)],
      loading = False, downloading = False, progress = 0, error = [],
      success = u ''Media information loaded successfully!'',
      solidarityName = u ''Climate Justice''\<rparr>"

definition typed_ui :: ui where
  "typed_ui = initial_ui\<lparr>mediaUrl := u ''https://example.com/v/1'', solidarityName := u ''Climate Justice''\<rparr>"

definition metadata_response :: response where
  "metadata_response =
     \<lparr>status = 200, content_length = None,
      json_body = Parsed (JObj [(u ''title'', JStr (u ''Rally'')), (u ''uploader'', JStr (u ''ActivistOrg'')),
                                (u ''url'', JStr (u ''https://example.com/v/1'')), (u ''viewCount'', JNum 1500)]),
      body_reads = []\<rparr>"

definition example_download :: response where
  "example_download =
     \<lparr>status = 200, content_length = Some (u ''5''), json_body = Unparseable [],
      body_reads = [Chunk [1, 2], Chunk [], Chunk [3, 4, 5]]\<rparr>"

definition example_api :: jsstring where
  "example_api = u ''http://localhost:5000/api''"

text \<open>
  A response that declares five bytes and delivers ten (the declared length of a
  compressed body counts the compressed bytes, the reader yields the decoded ones), and
  one without a \<open>Content-Length\<close> header.
\<close>

definition overlong_download :: response where
  "overlong_download =
     \<lparr>status = 200, content_length = Some (u ''5''), json_body = Unparseable [],
      body_reads = [Chunk [1, 2, 3, 4, 5, 6, 7, 8, 9, 10]]\<rparr>"

definition unsized_download :: response where
  "unsized_download =
     \<lparr>status = 200, content_length = None, json_body = Unparseable [],
      body_reads = [Chunk [1, 2], Chunk [3, 4, 5]]\<rparr>"

text \<open>
  The same state after the user has replaced the URL by blanks; the panel with the
  download button is still shown, since \<open>metadata\<close> is set.
\<close>

definition blank_url_ui :: ui where
  "blank_url_ui = example_ui\<lparr>mediaUrl := u ''   ''\<rparr>"

text \<open>
  Three failure responses: the one of the scenario, an HTML page of a gateway (which
  \<open>response.json()\<close> rejects with the parser's message), and a JSON body \<open>null\<close>.
\<close>

definition blocked_response :: response where
  "blocked_response =
     \<lparr>status = 403, content_length = None,
      json_body = Parsed (JObj [(u ''error'', JStr (u ''blocked''))]), body_reads = []\<rparr>"

definition gateway_response :: response where
  "gateway_response =
     \<lparr>status = 502, content_length = None,
      json_body = Unparseable (u ''Unexpected token < in JSON at position 0''), body_reads = []\<rparr>"

definition null_response :: response where
  "null_response =
     \<lparr>status = 500, content_length = None, json_body = Parsed JNull, body_reads = []\<rparr>"

text \<open>
  A state whose campaign name holds double quotes and whose metadata names an uploader
  with a comma, and a time stamp.
\<close>

definition quoting_ui :: ui where
  "quoting_ui =
     \<lparr>mediaUrl = u ''https://example.com/v/1'',
      metadata = JObj [(u ''title'', JStr (u ''He said \"hi\", twice'')),
                       (u ''uploader'', JStr (u ''Doe, John'')),
                       (u ''url'', JStr (u ''https://example.com/v/1''))],
      loading = False, downloading = False, progress = 0, error = [],
      success = u ''Media information loaded successfully!'',
      solidarityName = u ''Say \"no\"''\<rparr>"

definition example_now :: jsstring where
  "example_now = u ''2026-01-01T00:00:00.000Z''"

text \<open>A state whose metadata holds nothing but the URL.\<close>

definition bare_ui :: ui where
  "bare_ui = example_ui\<lparr>metadata := JObj [(u ''url'', JStr (u ''https://example.com/v/1''))]\<rparr>"

text \<open>
  The state of the example with an uploader whose name holds a comma, a response without
  content, and the rejection of a \<open>fetch\<close> that does not reach the server.
\<close>

definition comma_ui :: ui where
  "comma_ui =
     example_ui\<lparr>metadata :=
       JObj [(u ''title'', JStr (u ''Rally'')), (u ''uploader'', JStr (u ''Doe, John'')),
             (u ''url'', JStr (u ''https://example.com/v/1'')), (u ''viewCount'', JNum 1500)]\<rparr>"

definition no_content_download :: response where
  "no_content_download =
     \<lparr>status = 204, content_length = None,
      json_body = Unparseable (u ''Unexpected end of JSON input''), body_reads = []\<rparr>"

definition offline :: fetch_outcome where
  "offline = Rejected (u ''Failed to fetch'')"


section \<open>Auxiliary facts\<close>

subsection \<open>Reading the log\<close>

lemmas world_defs =
  emit_def suspend_def setLoading_def setDownloading_def setError_def setSuccess_def
  setMetadata_def setProgress_def

lemma artifacts_append: "artifacts (xs @ ys) = artifacts xs @ artifacts ys"
  by (induction xs rule: artifacts.induct) simp_all

lemma reports_append: "reports (xs @ ys) = reports xs @ reports ys"
  by (induction xs rule: reports.induct) simp_all

lemma requests_append: "requests (xs @ ys) = requests xs @ requests ys"
  by (induction xs rule: requests.induct) simp_all

lemma suspensions_append: "suspensions (xs @ ys) = suspensions xs @ suspensions ys"
  by (induction xs rule: suspensions.induct) simp_all

lemma reports_download_request [simp]:
  "reports (download_request js api quality s # es) = reports es"
  by (simp add: download_request_def)

subsection \<open>The read loop\<close>

lemma read_loop_chunks:
  "snd (read_loop js tot (map Chunk cs) chunks loaded w) = Inr (chunks @ cs)"
  by (induction cs arbitrary: chunks loaded w) (simp_all add: Let_def)

lemma read_loop_artifacts:
  "artifacts (snd (fst (read_loop js tot reads chunks loaded w))) = artifacts (snd w)"
proof (induction js tot reads chunks loaded w rule: read_loop.induct)
  case (3 js tot v reads chunks loaded w)
  then show ?case
    by (simp add: Let_def world_defs artifacts_append split: option.splits)
qed (simp_all add: world_defs artifacts_append)

lemma read_loop_reports:
  "reports (snd (fst (read_loop js tot reads chunks loaded w))) =
     reports (snd w) @ loop_reports js tot loaded (delivered reads)"
proof (induction js tot reads chunks loaded w rule: read_loop.induct)
  case (3 js tot v reads chunks loaded w)
  then show ?case
    by (simp add: Let_def world_defs reports_append loop_reports_def split: option.splits)
qed (simp_all add: loop_reports_def world_defs reports_append split: option.splits)

lemma read_loop_requests:
  "requests (snd (fst (read_loop js tot reads chunks loaded w))) = requests (snd w)"
proof (induction js tot reads chunks loaded w rule: read_loop.induct)
  case (3 js tot v reads chunks loaded w)
  then show ?case
    by (simp add: Let_def world_defs requests_append split: option.splits)
qed (simp_all add: world_defs requests_append)

text \<open>The loop adds to the log and leaves what was there.\<close>

lemma read_loop_extends:
  "\<exists>more. snd (fst (read_loop js tot reads chunks loaded w)) = snd w @ more"
proof (induction reads arbitrary: chunks loaded w)
  case Nil
  show ?case by (simp add: world_defs)
next
  case (Cons r reads)
  show ?case
  proof (cases r)
    case (ReadError m)
    then show ?thesis by (simp add: world_defs)
  next
    case (Chunk v)
    let ?w0 = "suspend w"
    let ?w' = "case tot of None \<Rightarrow> ?w0
      | Some t \<Rightarrow> if t = 0 then ?w0 else setProgress (percent js (loaded + int (length v)) t) ?w0"
    from Cons.IH [of "chunks @ [v]" "loaded + int (length v)" ?w'] obtain more
      where m: "snd (fst (read_loop js tot reads (chunks @ [v]) (loaded + int (length v)) ?w'))
        = snd ?w' @ more"
      by blast
    have "\<exists>pre. snd ?w' = snd w @ pre"
      by (simp add: world_defs split: option.splits)
    then obtain pre where "snd ?w' = snd w @ pre" by blast
    with m Chunk show ?thesis by (simp add: Let_def)
  qed
qed

subsection \<open>Rounding to a double\<close>

lemma expo_bounds: "0 < x \<Longrightarrow> 2 powi (expo x) \<le> x \<and> x < 2 powi (expo x + 1)"
proof (induction x rule: expo.induct)
  case (1 x)
  show ?case
  proof (cases "2 \<le> x")
    case True
    with 1 have ih: "2 powi (expo (x / 2)) \<le> x / 2 \<and> x / 2 < 2 powi (expo (x / 2) + 1)" by simp
    have e: "expo x = expo (x / 2) + 1" using True by (subst expo.simps) simp
    from ih show ?thesis unfolding e by (simp add: power_int_add field_simps)
  next
    case False
    show ?thesis
    proof (cases "x < 1")
      case True
      with 1 False have ih: "2 powi (expo (2 * x)) \<le> 2 * x \<and> 2 * x < 2 powi (expo (2 * x) + 1)" by simp
      have e: "expo x = expo (2 * x) - 1" using True False 1(3) by (subst expo.simps) simp
      from ih show ?thesis unfolding e by (simp add: power_int_add power_int_diff field_simps)
    next
      case x1: False
      have e: "expo x = 0" using False x1 by (subst expo.simps) simp
      from False x1 show ?thesis unfolding e by simp
    qed
  qed
qed

lemma expo_unique:
  assumes "2 powi e \<le> x" and "x < 2 powi (e + 1)"
  shows "expo x = e"
proof -
  have x: "0 < x" using assms(1) by (meson less_le_trans zero_less_numeral zero_less_power_int)
  from expo_bounds [OF x] have b: "2 powi (expo x) \<le> x" "x < 2 powi (expo x + 1)" by simp_all
  have "\<not> expo x < e"
  proof
    assume "expo x < e"
    then have "(2::rat) powi (expo x + 1) \<le> 2 powi e" by (intro power_int_increasing) simp_all
    with b assms show False by simp
  qed
  moreover have "\<not> e < expo x"
  proof
    assume "e < expo x"
    then have "(2::rat) powi (e + 1) \<le> 2 powi (expo x)" by (intro power_int_increasing) simp_all
    with b assms show False by simp
  qed
  ultimately show ?thesis by simp
qed

lemma round_even_cases: "round_even q = \<lfloor>q\<rfloor> \<or> round_even q = \<lfloor>q\<rfloor> + 1"
  by (simp add: round_even_def Let_def)

lemma round_even_mono: "q \<le> q' \<Longrightarrow> round_even q \<le> round_even q'"
proof -
  assume le: "q \<le> q'"
  then have fl: "\<lfloor>q\<rfloor> \<le> \<lfloor>q'\<rfloor>" by (rule floor_mono)
  show ?thesis
  proof (cases "\<lfloor>q\<rfloor> = \<lfloor>q'\<rfloor>")
    case True
    with le show ?thesis by (auto simp: round_even_def Let_def)
  next
    case False
    with fl have "\<lfloor>q\<rfloor> + 1 \<le> \<lfloor>q'\<rfloor>" by simp
    moreover have "round_even q \<le> \<lfloor>q\<rfloor> + 1" using round_even_cases [of q] by auto
    moreover have "\<lfloor>q'\<rfloor> \<le> round_even q'" using round_even_cases [of q'] by auto
    ultimately show ?thesis by simp
  qed
qed

lemma round_even_of_int [simp]: "round_even (of_int n) = n"
  by (simp add: round_even_def)

lemma round_even_numeral [simp]: "round_even (numeral k) = numeral k"
  using round_even_of_int [of "numeral k"] by simp

lemma round_even_eqI:
  assumes "\<bar>q - of_int m\<bar> < 1 / 2"
  shows "round_even q = m"
proof (cases "of_int m \<le> q")
  case True
  with assms have "\<lfloor>q\<rfloor> = m" by (intro floor_unique) linarith+
  with True assms show ?thesis by (simp add: round_even_def Let_def)
next
  case False
  with assms have f: "\<lfloor>q\<rfloor> = m - 1" by (intro floor_unique) (simp, linarith)+
  with False assms show ?thesis by (auto simp: round_even_def Let_def)
qed

lemma nearest_double_eqI:
  assumes "2 powi e \<le> x" and "x < 2 powi (e + 1)"
    and "\<bar>x * 2 powi (52 - e) - of_int m\<bar> < 1 / 2"
  shows "nearest_double x = of_int m * 2 powi (e - 52)"
proof -
  have x: "0 < x" using assms(1) by (meson less_le_trans zero_less_numeral zero_less_power_int)
  have e: "expo x = e" using assms(1,2) by (rule expo_unique)
  from x e assms(3) show ?thesis
    by (simp add: nearest_double_def round_even_eqI)
qed

lemma nearest_double_exact:
  assumes "2 powi e \<le> x" and "x < 2 powi (e + 1)" and "x * 2 powi (52 - e) = of_int m"
  shows "nearest_double x = x"
proof -
  have "nearest_double x = of_int m * 2 powi (e - 52)"
    using assms by (intro nearest_double_eqI) simp_all
  also have "\<dots> = x * (2 powi (52 - e) * 2 powi (e - 52))" using assms(3) by simp
  also have "2 powi (52 - e) * 2 powi (e - 52) = (1::rat)"
    by (simp add: power_int_add [symmetric])
  finally show ?thesis by simp
qed

lemma nearest_double_1: "nearest_double 1 = 1"
  by (rule nearest_double_exact [where e = 0 and m = "2 ^ 52"]) simp_all

lemma nearest_double_100: "nearest_double 100 = 100"
  by (rule nearest_double_exact [where e = 6 and m = "100 * 2 ^ 46"]) simp_all

lemma nearest_double_range:
  assumes "0 < x"
  shows "2 powi (expo x) \<le> nearest_double x \<and> nearest_double x \<le> 2 powi (expo x + 1)"
proof -
  let ?e = "expo x"
  let ?q = "x * 2 powi (52 - ?e)"
  from expo_bounds [OF assms] have b: "2 powi ?e \<le> x" "x < 2 powi (?e + 1)" by simp_all
  have p: "(0::rat) < 2 powi (52 - ?e)" by simp
  have "2 powi ?e * 2 powi (52 - ?e) \<le> ?q" using b(1) p by (intro mult_right_mono) simp_all
  then have lo: "of_int (2 ^ 52) \<le> ?q" by (simp add: power_int_add [symmetric])
  have "?q \<le> 2 powi (?e + 1) * 2 powi (52 - ?e)" using b(2) p by (intro mult_right_mono) simp_all
  then have hi: "?q \<le> of_int (2 ^ 53)" by (simp add: power_int_add [symmetric])
  from round_even_mono [OF lo] have rlo: "2 ^ 52 \<le> round_even ?q" by simp
  from round_even_mono [OF hi] have rhi: "round_even ?q \<le> 2 ^ 53" by simp
  have nd: "nearest_double x = of_int (round_even ?q) * 2 powi (?e - 52)"
    using assms by (simp add: nearest_double_def)
  have "of_int (2 ^ 52) * 2 powi (?e - 52) \<le> nearest_double x"
    unfolding nd using rlo by (intro mult_right_mono) (simp_all del: of_int_power of_int_numeral)
  moreover have "of_int (2 ^ 52) * 2 powi (?e - 52) = (2::rat) powi ?e"
    by (simp add: power_int_diff)
  moreover have "nearest_double x \<le> of_int (2 ^ 53) * 2 powi (?e - 52)"
    unfolding nd using rhi by (intro mult_right_mono) (simp_all del: of_int_power of_int_numeral)
  moreover have "of_int (2 ^ 53) * 2 powi (?e - 52) = (2::rat) powi (?e + 1)"
    by (simp add: power_int_diff power_int_add)
  ultimately show ?thesis by simp
qed

lemma expo_mono:
  assumes "0 < x" and "x \<le> y"
  shows "expo x \<le> expo y"
proof (rule ccontr)
  assume "\<not> expo x \<le> expo y"
  then have "expo y + 1 \<le> expo x" by simp
  then have "(2::rat) powi (expo y + 1) \<le> 2 powi (expo x)" by (intro power_int_increasing) simp_all
  moreover from assms have "0 < y" by simp
  ultimately show False using expo_bounds [OF assms(1)] expo_bounds [OF \<open>0 < y\<close>] assms(2) by simp
qed

lemma nearest_double_mono:
  assumes "0 \<le> x" and "x \<le> y"
  shows "nearest_double x \<le> nearest_double y"
proof (cases "x = 0")
  case True
  show ?thesis
  proof (cases "y = 0")
    case False
    with assms True have "0 < y" by simp
    from nearest_double_range [OF this] have "0 \<le> nearest_double y"
      by (meson order_trans zero_le_numeral zero_le_power_int)
    with True show ?thesis by (simp add: nearest_double_def)
  qed (simp add: True)
next
  case False
  with assms have x: "0 < x" and y: "0 < y" by simp_all
  show ?thesis
  proof (cases "expo x = expo y")
    case True
    have "x * 2 powi (52 - expo y) \<le> y * 2 powi (52 - expo y)"
      using assms(2) by (intro mult_right_mono) simp_all
    from round_even_mono [OF this]
    have "(of_int (round_even (x * 2 powi (52 - expo y))) :: rat) * 2 powi (expo y - 52)
        \<le> of_int (round_even (y * 2 powi (52 - expo y))) * 2 powi (expo y - 52)"
      by (intro mult_right_mono) simp_all
    with x y True show ?thesis by (simp add: nearest_double_def)
  next
    case False
    with expo_mono [OF x assms(2)] have "expo x + 1 \<le> expo y" by simp
    then have "(2::rat) powi (expo x + 1) \<le> 2 powi (expo y)" by (intro power_int_increasing) simp_all
    with nearest_double_range [OF x] nearest_double_range [OF y] show ?thesis by simp
  qed
qed

lemma nearest_double_0 [simp]: "nearest_double 0 = 0"
  by (simp add: nearest_double_def)

lemma js_round_of_int: "js_round (of_int n) = n"
  unfolding js_round_def by (intro floor_unique) simp_all

lemma js_round_numeral [simp]: "js_round (numeral k) = numeral k"
  using js_round_of_int [of "numeral k"] by simp

lemma js_round_0 [simp]: "js_round 0 = 0"
  using js_round_of_int [of 0] by simp


subsection \<open>The percentage\<close>

lemma percent_mono:
  assumes "0 < t" and "t < 2 ^ 53" and "0 \<le> a" and "a \<le> b" and "b \<le> t"
  shows "percent js a t \<le> percent js b t"
proof -
  have q: "(of_int a :: rat) / of_int t \<le> of_int b / of_int t"
    using assms by (intro divide_right_mono) simp_all
  have q0: "(0::rat) \<le> of_int a / of_int t" using assms by simp
  have n: "nearest_double (of_int a / of_int t) \<le> nearest_double (of_int b / of_int t)"
    using q0 q by (rule nearest_double_mono)
  have n0: "0 \<le> nearest_double (of_int a / of_int t)"
    using nearest_double_mono [of 0 "of_int a / of_int t"] q0 by simp
  have "nearest_double (nearest_double (of_int a / of_int t) * 100)
      \<le> nearest_double (nearest_double (of_int b / of_int t) * 100)"
    using n n0 by (intro nearest_double_mono) simp_all
  then have "js_round (nearest_double (nearest_double (of_int a / of_int t) * 100))
      \<le> js_round (nearest_double (nearest_double (of_int b / of_int t) * 100))"
    unfolding js_round_def by (intro floor_mono) simp
  with assms show ?thesis by (simp add: percent_def)
qed

lemma percent_full: "0 < t \<Longrightarrow> t < 2 ^ 53 \<Longrightarrow> percent js t t = 100"
  by (simp add: percent_def nearest_double_1 nearest_double_100)

lemma percent_zero: "0 < t \<Longrightarrow> t < 2 ^ 53 \<Longrightarrow> percent js 0 t = 0"
  by (simp add: percent_def)

lemma percent_bounds:
  assumes "0 < t" and "t < 2 ^ 53" and "0 \<le> a" and "a \<le> t"
  shows "0 \<le> percent js a t \<and> percent js a t \<le> 100"
  using percent_mono [of t 0 a js] percent_mono [of t a t js] assms
  by (simp add: percent_zero percent_full)

text \<open>Two values at which the rounding of the quotient shows.\<close>

lemma percent_23_40: "percent js 23 40 = 57"
proof -
  have p: "percent js 23 40 = js_round (nearest_double (nearest_double (23 / 40) * 100))"
    by (simp add: percent_def)
  have 1: "nearest_double (23 / 40) = of_int 5179139571476070 * 2 powi (- 1 - 52)"
    by (rule nearest_double_eqI) simp_all
  have 2: "nearest_double (of_int 5179139571476070 * 2 powi (- 1 - 52) * 100)
      = of_int 8092405580431359 * 2 powi (5 - 52)"
    by (rule nearest_double_eqI) simp_all
  have 3: "js_round (of_int 8092405580431359 * 2 powi (5 - 52)) = 57"
    unfolding js_round_def by (intro floor_unique) simp_all
  show ?thesis by (simp only: p 1 2 3)
qed

lemma percent_29_200: "percent js 29 200 = 14"
proof -
  have p: "percent js 29 200 = js_round (nearest_double (nearest_double (29 / 200) * 100))"
    by (simp add: percent_def)
  have 1: "nearest_double (29 / 200) = of_int 5224175567749775 * 2 powi (- 3 - 52)"
    by (rule nearest_double_eqI) simp_all
  have 2: "nearest_double (of_int 5224175567749775 * 2 powi (- 3 - 52) * 100)
      = of_int 8162774324609023 * 2 powi (3 - 52)"
    by (rule nearest_double_eqI) simp_all
  have 3: "js_round (of_int 8162774324609023 * 2 powi (3 - 52)) = 14"
    unfolding js_round_def by (intro floor_unique) simp_all
  show ?thesis by (simp only: p 1 2 3)
qed

lemma percent_10_5: "percent js 10 5 = 200"
proof -
  have 1: "nearest_double 2 = 2"
    by (rule nearest_double_exact [where e = 1 and m = "2 ^ 52"]) simp_all
  have 2: "nearest_double 200 = 200"
    by (rule nearest_double_exact [where e = 7 and m = "200 * 2 ^ 45"]) simp_all
  show ?thesis
    by (simp add: percent_def 1 2)
qed

lemma running_bounds:
  "x \<in> set (running l vs) \<Longrightarrow> l \<le> x \<and> x \<le> l + int (length (concat vs))"
  by (induction vs arbitrary: l) (auto, fastforce+)

lemma running_sorted: "sorted (running l vs)"
  by (induction vs arbitrary: l) (auto dest: running_bounds)

lemma loop_reports_bounds:
  assumes "0 < t" and "t < 2 ^ 53" and "int (length (concat vs)) \<le> t"
    and "p \<in> set (loop_reports js (Some t) 0 vs)"
  shows "0 \<le> p \<and> p \<le> 100"
proof -
  from assms obtain l where l: "l \<in> set (running 0 vs)" and p: "p = percent js l t"
    by (auto simp: loop_reports_def)
  from running_bounds [OF l] assms(3) have "0 \<le> l" and "l \<le> t" by simp_all
  with assms(1,2) p show ?thesis
    by (simp add: percent_bounds)
qed

lemma loop_reports_sorted:
  assumes "0 < t" and "t < 2 ^ 53" and "int (length (concat vs)) \<le> t"
  shows "sorted (loop_reports js (Some t) 0 vs)"
proof -
  have "sorted_wrt (\<lambda>a b. percent js a t \<le> percent js b t) (running 0 vs)"
  proof (rule sorted_wrt_mono_rel [of _ "(\<le>)"])
    fix a b
    assume "a \<in> set (running 0 vs)" and "b \<in> set (running 0 vs)" and "a \<le> b"
    with running_bounds [of a 0 vs] running_bounds [of b 0 vs] assms
    show "percent js a t \<le> percent js b t"
      by (intro percent_mono) simp_all
  qed (rule running_sorted)
  with assms(1) show ?thesis
    by (simp add: loop_reports_def sorted_map)
qed

subsection \<open>The declared length\<close>

lemma parseInt10_null: "parseInt10 None = None"
  by (simp add: parseInt10_def u_def is_whitespace_def is_digit_def)

lemma parseInt10_5: "parseInt10 (Some (u ''5'')) = Some 5"
  by (simp add: parseInt10_def u_def is_whitespace_def is_digit_def digits_value_def)


subsection \<open>What the operations send, report and show\<close>

lemma download_reports:
  "\<exists>fin. reports (snd (downloadMedia js api quality (Resolved r) (s, []))) =
       0 # (if ok r \<and> \<not> null_body_status (status r)
            then loop_reports js (parseInt10 (content_length r)) 0 (delivered (body_reads r))
            else []) @ fin
     \<and> (fin = [] \<or> fin = [100])"
proof (cases "ok r \<and> \<not> null_body_status (status r)")
  case False
  then show ?thesis
    by (auto simp: downloadMedia_def download_try_def Let_def catch_error_def download_begin_def
        world_defs download_request_def response_body_def split: json_result.splits)
next
  case True
  let ?w1 = "suspend (emit (download_request js api quality s) (download_begin (s, [])))"
  let ?tot = "parseInt10 (content_length r)"
  obtain w2 res where rl: "read_loop js ?tot (body_reads r) [] 0 ?w1 = (w2, res)"
    by (cases "read_loop js ?tot (body_reads r) [] 0 ?w1")
  have r2: "reports (snd w2) = 0 # loop_reports js ?tot 0 (delivered (body_reads r))"
    using read_loop_reports [of js ?tot "body_reads r" "[]" 0 ?w1] rl
    by (simp add: download_begin_def world_defs reports_append download_request_def)
  show ?thesis
    using True rl r2
    by (simp add: downloadMedia_def download_try_def Let_def catch_error_def response_body_def
        world_defs reports_append split: sum.splits)
qed

lemma download_requests:
  "requests (snd (downloadMedia js api quality net w)) =
     requests (snd w) @ requests [download_request js api quality (fst w)]"
proof -
  let ?w1 = "suspend (emit (download_request js api quality (fst w)) (download_begin w))"
  have w1: "requests (snd ?w1) = requests (snd w) @ requests [download_request js api quality (fst w)]"
    by (simp add: download_begin_def world_defs requests_append download_request_def)
  show ?thesis
  proof (cases net)
    case (Rejected m)
    with w1 show ?thesis
      by (simp add: downloadMedia_def download_try_def Let_def catch_error_def world_defs
          download_request_def download_begin_def requests_append)
  next
    case (Resolved r)
    obtain w2 res
      where rl: "read_loop js (parseInt10 (content_length r)) (body_reads r) [] 0 ?w1 = (w2, res)"
      by (cases "read_loop js (parseInt10 (content_length r)) (body_reads r) [] 0 ?w1")
    have "requests (snd w2) = requests (snd ?w1)"
      using read_loop_requests [of js "parseInt10 (content_length r)" "body_reads r" "[]" 0 ?w1] rl
      by simp
    with w1 Resolved rl show ?thesis
      by (simp add: downloadMedia_def download_try_def Let_def catch_error_def response_body_def
          world_defs requests_append download_request_def download_begin_def
          split: json_result.splits sum.splits)
  qed
qed

lemma fetch_rejects_blank:
  assumes "trim (mediaUrl (fst w)) = [] \<or> trim (solidarityName (fst w)) = []"
  shows "snd (fetchMetadata js api net w) = snd w"
  using assms by (auto simp: fetchMetadata_def Let_def setError_def)

lemma fetch_requests_when_valid:
  assumes "trim (mediaUrl (fst w)) \<noteq> []" and "trim (solidarityName (fst w)) \<noteq> []"
  shows "requests (snd (fetchMetadata js api net w)) =
     requests (snd w) @ requests [metadata_request js api (fst w)]"
  using assms
  by (simp add: fetchMetadata_def Let_def fetch_try_def fetch_begin_def catch_error_def
      world_defs requests_append metadata_request_def
      split: fetch_outcome.splits json_result.splits)

lemma thrown_error_string:
  "get_prop data (u ''error'') = Inr (Some (JStr m)) \<Longrightarrow> m \<noteq> [] \<Longrightarrow>
     thrown_error js data fallback = Error m"
  by (simp add: thrown_error_def or_else_def)

lemma thrown_error_absent:
  "get_prop data (u ''error'') = Inr None \<Longrightarrow> thrown_error js data fallback = Error fallback"
  by (simp add: thrown_error_def or_else_def)

lemma download_failure:
  assumes "\<not> ok r" and "json_body r = Parsed data"
  shows "fst (downloadMedia js api quality (Resolved r) w) =
       (fst w)\<lparr>downloading := False,
                error := message (thrown_error js data (u ''Download failed'')), progress := 0\<rparr>"
    and "artifacts (snd (downloadMedia js api quality (Resolved r) w)) = artifacts (snd w)"
  using assms
  by (simp_all add: downloadMedia_def download_try_def Let_def catch_error_def download_begin_def
      world_defs artifacts_append download_request_def)

lemma fetch_failure:
  assumes "\<not> ok r" and "json_body r = Parsed data"
    and "trim (mediaUrl (fst w)) \<noteq> []" and "trim (solidarityName (fst w)) \<noteq> []"
  shows "fst (fetchMetadata js api (Resolved r) w) =
     (fst w)\<lparr>metadata := JNull, loading := False,
              error := message (thrown_error js data (u ''Failed to fetch metadata'')),
              success := []\<rparr>"
  using assms
  by (simp add: fetchMetadata_def fetch_try_def Let_def catch_error_def fetch_begin_def world_defs)

text \<open>A successful response without a body: reading it throws, and no file is offered.\<close>

lemma download_without_body:
  assumes "ok r" and "null_body_status (status r)"
  shows "artifacts (snd (downloadMedia js api quality (Resolved r) w)) = artifacts (snd w)"
    and "error (fst (downloadMedia js api quality (Resolved r) w))
      = null_read_message (u ''getReader'')"
    and "reports (snd (downloadMedia js api quality (Resolved r) w)) = reports (snd w) @ [0]"
  using assms
  by (simp_all add: downloadMedia_def download_try_def Let_def catch_error_def download_begin_def
      world_defs artifacts_append reports_append download_request_def response_body_def)

lemma no_content_download_fails:
  "ok no_content_download"
  "artifacts (snd (downloadMedia js example_api (u ''best'') (Resolved no_content_download)
      (example_ui, []))) = []"
  "error (fst (downloadMedia js example_api (u ''best'') (Resolved no_content_download)
      (example_ui, []))) = u ''Cannot read properties of null (reading 'getReader')''"
proof -
  show 1: "ok no_content_download"
    by (simp add: ok_def no_content_download_def)
  have 2: "null_body_status (status no_content_download)"
    by (simp add: null_body_status_def no_content_download_def)
  show "artifacts (snd (downloadMedia js example_api (u ''best'') (Resolved no_content_download)
      (example_ui, []))) = []"
    using download_without_body(1) [OF 1 2] by simp
  show "error (fst (downloadMedia js example_api (u ''best'') (Resolved no_content_download)
      (example_ui, []))) = u ''Cannot read properties of null (reading 'getReader')''"
    using download_without_body(2) [OF 1 2] by (simp add: null_read_message_def u_def)
qed

text \<open>How each handler begins, whatever the network answers.\<close>

lemma fetch_log_begins:
  assumes "trim (mediaUrl s) \<noteq> []" and "trim (solidarityName s) \<noteq> []"
  shows "\<exists>more. snd (fetchMetadata js api net (s, evs)) =
     evs @ [metadata_request js api s,
            Suspended (s\<lparr>loading := True, error := [], success := [], metadata := JNull\<rparr>)] @ more"
  using assms
  by (simp add: fetchMetadata_def fetch_try_def Let_def catch_error_def fetch_begin_def world_defs
      split: fetch_outcome.splits json_result.splits)

lemma download_log_begins:
  "\<exists>more. snd (downloadMedia js api quality net (s, evs)) =
     evs @ [Progress 0, download_request js api quality s,
            Suspended (s\<lparr>downloading := True, error := [], progress := 0\<rparr>)] @ more"
proof (cases net)
  case (Rejected m)
  then show ?thesis
    by (simp add: downloadMedia_def download_try_def Let_def catch_error_def download_begin_def
        world_defs)
next
  case (Resolved r)
  let ?w1 = "suspend (emit (download_request js api quality s) (download_begin (s, evs)))"
  have w1: "snd ?w1 = evs @ [Progress 0, download_request js api quality s,
            Suspended (s\<lparr>downloading := True, error := [], progress := 0\<rparr>)]"
    by (simp add: download_begin_def world_defs)
  obtain w2 res
    where rl: "read_loop js (parseInt10 (content_length r)) (body_reads r) [] 0 ?w1 = (w2, res)"
    by (cases "read_loop js (parseInt10 (content_length r)) (body_reads r) [] 0 ?w1")
  from read_loop_extends [of js "parseInt10 (content_length r)" "body_reads r" "[]" 0 ?w1] rl
  obtain more where "snd w2 = snd ?w1 @ more" by auto
  with w1 have w2: "snd w2 = evs @ [Progress 0, download_request js api quality s,
            Suspended (s\<lparr>downloading := True, error := [], progress := 0\<rparr>)] @ more"
    by simp
  show ?thesis
  proof (cases "ok r \<and> response_body r \<noteq> None")
    case False
    with Resolved w1 show ?thesis
      by (auto simp: downloadMedia_def download_try_def Let_def catch_error_def world_defs
          split: json_result.splits)
  next
    case True
    then have b: "response_body r = Some (body_reads r)"
      by (simp add: response_body_def split: if_splits)
    from True Resolved rl w2 b show ?thesis
      by (auto simp: downloadMedia_def download_try_def Let_def catch_error_def world_defs
          split: sum.splits)
  qed
qed

subsection \<open>The concrete inputs\<close>

lemma example_ui_reached:
  "fst (fetchMetadata js example_api (Resolved metadata_response) (typed_ui, [])) = example_ui"
proof -
  have "trim (u ''https://example.com/v/1'') \<noteq> []" and "trim (u ''Climate Justice'') \<noteq> []"
    by (simp_all add: trim_def u_def is_whitespace_def)
  then show ?thesis
    by (simp add: fetchMetadata_def fetch_try_def fetch_begin_def catch_error_def Let_def
        world_defs ok_def typed_ui_def initial_ui_def metadata_response_def example_ui_def)
qed

lemma example_filename:
  "media_filename js example_ui = Inr (u ''Climate Justice_Rally.mp4'')"
  by (simp add: media_filename_def example_ui_def optional_prop_def or_else_def u_def)

lemma example_not_blank:
  "trim (mediaUrl example_ui) \<noteq> []" "trim (solidarityName example_ui) \<noteq> []"
  by (simp_all add: example_ui_def trim_def u_def is_whitespace_def)

subsection \<open>Well-formed metadata in the exports\<close>

lemma well_formed_truthy: "well_formed m \<Longrightarrow> truthy (Some m)"
  by (cases m) (simp_all add: well_formed_def)

lemma well_formed_text:
  assumes "well_formed m"
    and "k \<in> set [u ''title'', u ''uploader'', u ''platform'', u ''description'', u ''thumbnail'',
                 u ''mimeType'', u ''extension'', u ''filename'']"
  shows "text_or_absent (optional_prop m k)"
proof (cases m)
  case (JObj kvs)
  with assms(1) have "list_all (\<lambda>k. text_or_absent (map_of kvs k))
                [u ''title'', u ''uploader'', u ''platform'', u ''description'', u ''thumbnail'',
                 u ''mimeType'', u ''extension'', u ''filename'']"
    by (simp add: well_formed_def split: option.splits json.splits)
  with assms(2) JObj show ?thesis
    unfolding list_all_iff optional_prop_def by auto
qed (use assms(1) in \<open>simp_all add: well_formed_def\<close>)

lemma well_formed_count:
  assumes "well_formed m"
    and "k \<in> set [u ''viewCount'', u ''likeCount'', u ''size'']"
  shows "count_or_absent (optional_prop m k)"
proof (cases m)
  case (JObj kvs)
  with assms(1) have "list_all (\<lambda>k. count_or_absent (map_of kvs k))
                [u ''viewCount'', u ''likeCount'', u ''size'']"
    by (simp add: well_formed_def split: option.splits json.splits)
  with assms(2) JObj show ?thesis
    unfolding list_all_iff optional_prop_def by auto
qed (use assms(1) in \<open>simp_all add: well_formed_def\<close>)

lemma well_formed_seconds:
  assumes "well_formed m"
  shows "seconds_or_absent (optional_prop m (u ''duration''))"
  using assms
  by (cases m) (simp_all add: well_formed_def optional_prop_def split: option.splits json.splits)

lemma well_formed_url:
  assumes "well_formed m"
  shows "\<exists>x. optional_prop m (u ''url'') = Some (JStr x)"
  using assms
  by (cases m) (auto simp: well_formed_def optional_prop_def split: option.splits json.splits)

lemma text_or_absent_to_string:
  "text_or_absent v \<Longrightarrow> to_string_opt js (or_else v (Some (JStr dflt))) = Inr (text_or dflt v)"
  by (auto simp: text_or_absent_def or_else_def text_or_def split: option.splits json.splits)

lemma text_or_absent_replace:
  "text_or_absent v \<Longrightarrow> replace_quotes (or_else v (Some (JStr []))) = Inr (double_quotes (text_or [] v))"
  by (auto simp: text_or_absent_def or_else_def text_or_def double_quotes_def split: option.splits json.splits)

lemma number_to_string_0: "number_to_string js 0 = u ''0''"
  by (simp add: number_to_string_def safe_integer_def dec.simps u_def)

lemma count_or_absent_to_string:
  "count_or_absent v \<Longrightarrow> to_string_opt js (or_else v (Some (JNum 0))) = Inr (number_or_zero js v)"
  by (auto simp: count_or_absent_def or_else_def number_or_zero_def number_to_string_0
      split: option.splits json.splits)

lemma seconds_or_absent_to_string:
  "seconds_or_absent v \<Longrightarrow> to_string_opt js (or_else v (Some (JNum 0))) = Inr (number_or_zero js v)"
  by (auto simp: seconds_or_absent_def or_else_def number_or_zero_def number_to_string_0
      split: option.splits json.splits)

lemma text_or_absent_plain:
  "text_or_absent v \<Longrightarrow> to_string_opt js v = Inr (plain_text v)"
  by (auto simp: text_or_absent_def plain_text_def split: option.splits json.splits)

lemma text_or_absent_or_else:
  "text_or_absent v \<Longrightarrow> or_else v (Some (JStr dflt)) = Some (JStr (text_or dflt v))"
  by (auto simp: text_or_absent_def or_else_def text_or_def split: option.splits json.splits)

text \<open>
  The lines of the CSV export for a well-formed value: the header and the nine lines
  \<open>label,value\<close> in the order of the source, with the defaults of the source.
\<close>

lemma csv_lines_well_formed:
  assumes "well_formed (metadata s)"
  shows "csv_lines js now s =
     Inr [u ''Field,Value'',
          u ''Solidarity Campaign,'' @ [0x22] @ solidarityName s @ [0x22],
          u ''Platform,'' @ text_or (u ''unknown'') (optional_prop (metadata s) (u ''platform'')),
          u ''Title,'' @ csv_escaped (text_or [] (optional_prop (metadata s) (u ''title''))),
          u ''Uploader,'' @ text_or (u ''Unknown'') (optional_prop (metadata s) (u ''uploader'')),
          u ''URL,'' @ plain_text (optional_prop (metadata s) (u ''url'')),
          u ''Views,'' @ number_or_zero js (optional_prop (metadata s) (u ''viewCount'')),
          u ''Likes,'' @ number_or_zero js (optional_prop (metadata s) (u ''likeCount'')),
          u ''Duration,'' @ number_or_zero js (optional_prop (metadata s) (u ''duration'')),
          u ''Archived At,'' @ now]"
proof -
  note wf = assms
  have p: "to_string_opt js (or_else (optional_prop (metadata s) (u ''platform'')) (Some (JStr (u ''unknown''))))
      = Inr (text_or (u ''unknown'') (optional_prop (metadata s) (u ''platform'')))"
    by (rule text_or_absent_to_string, rule well_formed_text [OF wf]) simp
  have t: "replace_quotes (or_else (optional_prop (metadata s) (u ''title'')) (Some (JStr [])))
      = Inr (double_quotes (text_or [] (optional_prop (metadata s) (u ''title''))))"
    by (rule text_or_absent_replace, rule well_formed_text [OF wf]) simp
  have up: "to_string_opt js (or_else (optional_prop (metadata s) (u ''uploader'')) (Some (JStr (u ''Unknown''))))
      = Inr (text_or (u ''Unknown'') (optional_prop (metadata s) (u ''uploader'')))"
    by (rule text_or_absent_to_string, rule well_formed_text [OF wf]) simp
  have ur: "to_string_opt js (optional_prop (metadata s) (u ''url''))
      = Inr (plain_text (optional_prop (metadata s) (u ''url'')))"
    using well_formed_url [OF wf] by (auto simp: plain_text_def)
  have v: "to_string_opt js (or_else (optional_prop (metadata s) (u ''viewCount'')) (Some (JNum 0)))
      = Inr (number_or_zero js (optional_prop (metadata s) (u ''viewCount'')))"
    by (rule count_or_absent_to_string, rule well_formed_count [OF wf]) simp
  have l: "to_string_opt js (or_else (optional_prop (metadata s) (u ''likeCount'')) (Some (JNum 0)))
      = Inr (number_or_zero js (optional_prop (metadata s) (u ''likeCount'')))"
    by (rule count_or_absent_to_string, rule well_formed_count [OF wf]) simp
  have du: "to_string_opt js (or_else (optional_prop (metadata s) (u ''duration'')) (Some (JNum 0)))
      = Inr (number_or_zero js (optional_prop (metadata s) (u ''duration'')))"
    by (rule seconds_or_absent_to_string, rule well_formed_seconds [OF wf])
  show ?thesis
    unfolding csv_lines_def p t up ur v l du by (simp add: and_then_def csv_escaped_def)
qed

text \<open>The text \<open>JSON.stringify\<close> writes for an object literal whose first property is set.\<close>

lemma join_Cons:
  "join sep (x # xs) = x @ concat (map (\<lambda>l. sep @ l) xs)"
  by (induction xs arbitrary: x) simp_all

lemma separated_lines:
  "concat (map (\<lambda>l. sep @ l)
     (concat (map (\<lambda>(k, v). case v of None \<Rightarrow> [] | Some x \<Rightarrow> [line k x]) props))) =
   concat (map (\<lambda>(k, v). case v of None \<Rightarrow> [] | Some x \<Rightarrow> sep @ line k x) props)"
  by (induction props) (auto split: option.splits)

lemma JSON_stringify_layout:
  "JSON_stringify js ((k0, Some v0) # props) 2 =
     u ''{'' @ [0x0A] @ u ''  '' @ QuoteJSONString k0 @ u '': '' @ serialize js (u ''  '') (u ''  '') v0
     @ concat (map (\<lambda>(k, v). case v of
          None \<Rightarrow> []
        | Some x \<Rightarrow> u '','' @ [0x0A] @ u ''  '' @ QuoteJSONString k @ u '': ''
                     @ serialize js (u ''  '') (u ''  '') x) props)
     @ [0x0A] @ u ''}''"
proof -
  define sep :: jsstring where "sep = [0x2C, 0x0A] @ u ''  ''"
  define line where "line = (\<lambda>k x. QuoteJSONString k @ [0x3A, 0x20] @ serialize js (u ''  '') (u ''  '') x)"
  have gap: "replicate (min 10 2) 0x20 = u ''  ''"
    by (simp add: u_def numeral_2_eq_2)
  have g: "u ''  '' \<noteq> []" by (simp add: u_def)
  have d: "defined_properties ((k0, Some v0) # props) = (k0, v0) # defined_properties props"
    by (simp add: defined_properties_def)
  have ps: "serialize_properties js (u ''  '') (u ''  '') (defined_properties props) =
      concat (map (\<lambda>(k, v). case v of None \<Rightarrow> [] | Some x \<Rightarrow> [line k x]) props)"
    using g by (induction props) (auto simp: defined_properties_def line_def split: option.splits)
  have "JSON_stringify js ((k0, Some v0) # props) 2 =
      [0x7B, 0x0A] @ u ''  '' @ join sep (line k0 v0 #
        concat (map (\<lambda>(k, v). case v of None \<Rightarrow> [] | Some x \<Rightarrow> [line k x]) props))
      @ [0x0A, 0x7D]"
    unfolding JSON_stringify_def gap d
    using g by (simp add: wrap_json_def ps [symmetric] sep_def line_def del: join.simps)
  also have "\<dots> = [0x7B, 0x0A] @ u ''  '' @ line k0 v0
      @ concat (map (\<lambda>(k, v). case v of None \<Rightarrow> [] | Some x \<Rightarrow> sep @ line k x) props)
      @ [0x0A, 0x7D]"
    unfolding join_Cons separated_lines by simp
  also have "\<dots> = u ''{'' @ [0x0A] @ u ''  '' @ QuoteJSONString k0 @ u '': ''
     @ serialize js (u ''  '') (u ''  '') v0
     @ concat (map (\<lambda>(k, v). case v of
          None \<Rightarrow> []
        | Some x \<Rightarrow> u '','' @ [0x0A] @ u ''  '' @ QuoteJSONString k @ u '': ''
                     @ serialize js (u ''  '') (u ''  '') x) props)
     @ [0x0A] @ u ''}''"
  proof -
    have c: "u '': '' = [0x3A, 0x20]" "u '','' = [0x2C]" "u ''{'' = [0x7B]" "u ''}'' = [0x7D]"
      by (simp_all add: u_def)
    have "(\<lambda>(k, v). case v of None \<Rightarrow> [] | Some x \<Rightarrow> sep @ line k x) =
        (\<lambda>(k, v). case v of None \<Rightarrow> []
          | Some x \<Rightarrow> u '','' @ [0x0A] @ u ''  '' @ QuoteJSONString k @ u '': ''
                     @ serialize js (u ''  '') (u ''  '') x)"
      by (auto simp: fun_eq_iff sep_def line_def c split: option.splits)
    then show ?thesis
      by (simp add: line_def c)
  qed
  finally show ?thesis .
qed

subsection \<open>Reading an escaped field back\<close>

lemma csv_scan_quoted:
  "csv_scan Quoted cur fs (double_quotes t @ [0x22]) = Some (fs @ [cur @ t])"
  by (induction t arbitrary: cur) (simp_all add: double_quotes_def)

lemma escaped_field_round_trip:
  "read_csv_record (u ''Title,'' @ csv_escaped t) = Some [u ''Title'', t]"
proof -
  have "read_csv_record (u ''Title,'' @ csv_escaped t) = csv_scan Quoted [] [u ''Title''] (double_quotes t @ [0x22])"
    by (simp add: read_csv_record_def csv_escaped_def u_def)
  then show ?thesis by (simp add: csv_scan_quoted)
qed

subsection \<open>The concrete metadata\<close>

lemma bare_well_formed: "well_formed (metadata bare_ui)"
  by (simp add: bare_ui_def well_formed_def text_or_absent_def count_or_absent_def
      seconds_or_absent_def u_def)

lemma example_well_formed: "well_formed (metadata example_ui)"
  by (simp add: example_ui_def well_formed_def text_or_absent_def count_or_absent_def
      seconds_or_absent_def u_def)

lemma quoting_well_formed: "well_formed (metadata quoting_ui)"
  by (simp add: quoting_ui_def well_formed_def text_or_absent_def count_or_absent_def
      seconds_or_absent_def u_def)

lemma comma_well_formed: "well_formed (metadata comma_ui)"
  by (simp add: comma_ui_def well_formed_def text_or_absent_def count_or_absent_def
      seconds_or_absent_def u_def)

lemma number_to_string_1500: "number_to_string js 1500 = u ''1500''"
  by (simp add: number_to_string_def safe_integer_def dec.simps u_def)

section \<open>The streamed download\<close>

text \<open>
  C1. Whatever chunks the reads of the body of a successful download response deliver
  before the stream is done, the one artifact the download hands to the user holds the
  bytes of these chunks in the order of their arrival: if the chunks \<open>cs\<close> are any
  division of the byte sequence \<open>bytes\<close>, the artifact is \<open>bytes\<close>. (A response without
  content, status 204 or 205, has no body to read: see \<open>download_without_body\<close>.)
\<close>

theorem download_artifact_is_concatenation:
  assumes "ok r" and "\<not> null_body_status (status r)"
    and "body_reads r = map Chunk cs" and "concat cs = bytes"
    and "media_filename js (fst w) = Inr name"
  shows "artifacts (snd (downloadMedia js api quality (Resolved r) w)) = artifacts (snd w) @ [bytes]"
proof -
  let ?w1 = "suspend (emit (download_request js api quality (fst w)) (download_begin w))"
  let ?tot = "parseInt10 (content_length r)"
  obtain w2 res where rl: "read_loop js ?tot (map Chunk cs) [] 0 ?w1 = (w2, res)"
    by (cases "read_loop js ?tot (map Chunk cs) [] 0 ?w1")
  have res: "res = Inr cs"
    using read_loop_chunks [of js ?tot cs "[]" 0 ?w1] rl by simp
  have a2: "artifacts (snd w2) = artifacts (snd w)"
    using read_loop_artifacts [of js ?tot "map Chunk cs" "[]" 0 ?w1] rl
    by (simp add: download_begin_def world_defs artifacts_append download_request_def)
  show ?thesis
    using assms rl res a2
    by (simp add: downloadMedia_def download_try_def Let_def catch_error_def response_body_def
        world_defs Blob_def artifacts_append)
qed

theorem download_artifact_is_concatenation_witness:
  "artifacts (snd (downloadMedia example_engine example_api (u ''best'') (Resolved example_download)
      (example_ui, []))) = [[1, 2, 3, 4, 5]]"
  using download_artifact_is_concatenation [of example_download "[[1, 2], [], [3, 4, 5]]"
      "[1, 2, 3, 4, 5]" example_engine "(example_ui, [])" "u ''Climate Justice_Rally.mp4''"
      example_api "u ''best''"] example_filename [of example_engine]
  by (simp add: ok_def null_body_status_def example_download_def)

text \<open>
  C2, as the claim states it, fails: with a declared length of five bytes and a chunk of
  ten, the loop reports 200, and the final 100 is then a step down; and without a
  \<open>Content-Length\<close> header the progress is still set, to 0 at the start and to 100 at
  the end.
\<close>

theorem download_progress_overshoot:
  "parseInt10 (content_length overlong_download) = Some 5
   \<and> reports (snd (downloadMedia example_engine example_api (u ''best'') (Resolved overlong_download)
        (example_ui, []))) = [0, 200, 100]
   \<and> content_length unsized_download = None
   \<and> reports (snd (downloadMedia example_engine example_api (u ''best'') (Resolved unsized_download)
        (example_ui, []))) = [0, 100]"
  by (simp add: overlong_download_def unsized_download_def parseInt10_5 parseInt10_null
      downloadMedia_def download_try_def ok_def response_body_def null_body_status_def
      download_begin_def world_defs catch_error_def example_filename Let_def percent_10_5)

text \<open>
  C2, amended. When the \<open>Content-Length\<close> header parses to a positive total below
  \<open>2^53\<close> (so that the byte counts are doubles) and the body delivers no more bytes than
  this total, the values given to \<open>setProgress\<close> during a download (the reset to 0, one
  value for each chunk, computed in doubles as the code does, and the 100 of a completed
  download) are integers that never decrease and lie between 0 and 100. When the header
  is absent, nothing is reported while the chunks arrive: the only values are the reset
  to 0 and, if the download completes, the final 100.
\<close>

theorem download_progress_monotone_bounded:
  "(\<forall>t. parseInt10 (content_length r) = Some t \<and> 0 < t \<and> t < 2 ^ 53
        \<and> int (length (concat (delivered (body_reads r)))) \<le> t \<longrightarrow>
      sorted (reports (snd (downloadMedia js api quality (Resolved r) (s, []))))
      \<and> (\<forall>p \<in> set (reports (snd (downloadMedia js api quality (Resolved r) (s, [])))).
            0 \<le> p \<and> p \<le> 100))
   \<and> (content_length r = None \<longrightarrow>
        reports (snd (downloadMedia js api quality (Resolved r) (s, []))) = [0]
      \<or> reports (snd (downloadMedia js api quality (Resolved r) (s, []))) = [0, 100])"
proof (intro conjI allI impI)
  fix t
  assume h: "parseInt10 (content_length r) = Some t \<and> 0 < t \<and> t < 2 ^ 53
        \<and> int (length (concat (delivered (body_reads r)))) \<le> t"
  let ?mid = "if ok r \<and> \<not> null_body_status (status r)
    then loop_reports js (Some t) 0 (delivered (body_reads r)) else []"
  from h have pt: "parseInt10 (content_length r) = Some t" by simp
  from download_reports [of js api quality r s] obtain fin
    where ps0: "reports (snd (downloadMedia js api quality (Resolved r) (s, []))) =
        0 # (if ok r \<and> \<not> null_body_status (status r)
             then loop_reports js (parseInt10 (content_length r)) 0 (delivered (body_reads r))
             else []) @ fin"
      and fin: "fin = [] \<or> fin = [100]"
    by blast
  from ps0 pt
  have ps: "reports (snd (downloadMedia js api quality (Resolved r) (s, []))) = 0 # ?mid @ fin"
    by simp
  have mid: "\<forall>p \<in> set ?mid. 0 \<le> p \<and> p \<le> 100"
    using loop_reports_bounds [of t "delivered (body_reads r)" _ js] h by auto
  have smid: "sorted ?mid"
    using loop_reports_sorted [of t "delivered (body_reads r)" js] h by simp
  show "sorted (reports (snd (downloadMedia js api quality (Resolved r) (s, []))))"
    using ps fin mid smid by (auto simp: sorted_append)
  show "\<forall>p \<in> set (reports (snd (downloadMedia js api quality (Resolved r) (s, [])))).
      0 \<le> p \<and> p \<le> 100"
    using ps fin mid by auto
next
  assume "content_length r = None"
  then have "parseInt10 (content_length r) = None"
    by (simp add: parseInt10_null)
  then have mid: "(if ok r \<and> \<not> null_body_status (status r)
      then loop_reports js (parseInt10 (content_length r)) 0 (delivered (body_reads r))
      else []) = []"
    by (simp add: loop_reports_def)
  from download_reports [of js api quality r s] obtain fin
    where "reports (snd (downloadMedia js api quality (Resolved r) (s, []))) =
        0 # (if ok r \<and> \<not> null_body_status (status r)
             then loop_reports js (parseInt10 (content_length r)) 0 (delivered (body_reads r))
             else []) @ fin"
      and "fin = [] \<or> fin = [100]"
    by blast
  with mid
  show "reports (snd (downloadMedia js api quality (Resolved r) (s, []))) = [0]
      \<or> reports (snd (downloadMedia js api quality (Resolved r) (s, []))) = [0, 100]"
    by auto
qed

theorem download_progress_monotone_bounded_witness:
  "sorted (reports (snd (downloadMedia example_engine example_api (u ''best'')
      (Resolved example_download) (example_ui, []))))
   \<and> list_all (\<lambda>p. 0 \<le> p \<and> p \<le> 100)
        (reports (snd (downloadMedia example_engine example_api (u ''best'')
          (Resolved example_download) (example_ui, []))))
   \<and> (reports (snd (downloadMedia example_engine example_api (u ''best'')
          (Resolved unsized_download) (example_ui, []))) = [0]
      \<or> reports (snd (downloadMedia example_engine example_api (u ''best'')
          (Resolved unsized_download) (example_ui, []))) = [0, 100])"
  using download_progress_monotone_bounded [of example_download example_engine example_api
      "u ''best''" example_ui]
    download_progress_monotone_bounded [of unsized_download example_engine example_api
      "u ''best''" example_ui]
  by (simp add: example_download_def unsized_download_def parseInt10_5 list_all_iff)

section \<open>Validation\<close>

text \<open>
  C3. \<open>fetchMetadata\<close> rejects a blank URL or campaign name before any request is
  made, and lets every other pair of values through (\<open>fetch_rejects_blank\<close>,
  \<open>fetch_requests_when_valid\<close>). \<open>downloadMedia\<close> has no such test: in the state with
  the blank URL, whatever the network answers, \<open>fetchMetadata\<close> does nothing to the
  outside, while \<open>downloadMedia\<close> sends the request, with an empty \<open>url\<close>.
\<close>

theorem download_without_validation:
  "trim (mediaUrl blank_url_ui) = []
   \<and> snd (fetchMetadata js example_api net (blank_url_ui, [])) = []
   \<and> requests (snd (downloadMedia js example_api (u ''best'') net (blank_url_ui, []))) =
       [(u ''http://localhost:5000/api/download'',
         u ''{\"url\":\"\",\"solidarity\":\"Climate Justice\",\"quality\":\"best\"}'')]"
proof -
  have t: "trim (mediaUrl blank_url_ui) = []"
    by (simp add: blank_url_ui_def trim_def u_def is_whitespace_def)
  have n: "trim (solidarityName blank_url_ui) = u ''Climate Justice''"
    by (simp add: blank_url_ui_def example_ui_def trim_def u_def is_whitespace_def)
  have f: "snd (fetchMetadata js example_api net (blank_url_ui, [])) = []"
    using fetch_rejects_blank [of "(blank_url_ui, [])" js example_api net] t by simp
  have d: "requests [download_request js example_api (u ''best'') blank_url_ui] =
       [(u ''http://localhost:5000/api/download'',
         u ''{\"url\":\"\",\"solidarity\":\"Climate Justice\",\"quality\":\"best\"}'')]"
    by (simp add: download_request_def t n example_api_def JSON_stringify_def
        defined_properties_def wrap_json_def QuoteJSONString_def u_def quote_unit_def
        is_high_surrogate_def is_low_surrogate_def)
  show ?thesis
    using t f d download_requests [of js example_api "u ''best''" net "(blank_url_ui, [])"]
    by simp
qed

section \<open>Failure responses\<close>

text \<open>
  C5, as the claim states it, fails for a failure response whose body is not JSON, and
  for one whose body is the JSON value \<open>null\<close>: the message shown is the one of the
  exception that reading the body, or reading \<open>error\<close> from \<open>null\<close>, throws; it is
  neither supplied by the server nor the generic message.
\<close>

theorem failure_with_other_message:
  "error (fst (downloadMedia example_engine example_api (u ''best'') (Resolved gateway_response)
      (example_ui, [])))
     = u ''Unexpected token < in JSON at position 0''
   \<and> u ''Unexpected token < in JSON at position 0'' \<noteq> u ''Download failed''
   \<and> error (fst (downloadMedia example_engine example_api (u ''best'') (Resolved null_response)
      (example_ui, [])))
     = u ''Cannot read properties of null (reading 'error')''
   \<and> u ''Cannot read properties of null (reading 'error')'' \<noteq> u ''Download failed''"
  by (simp add: downloadMedia_def download_try_def Let_def catch_error_def download_begin_def
      world_defs gateway_response_def null_response_def
      ok_def thrown_error_def null_read_message_def u_def)

text \<open>
  C5, amended. For every non-success response of the metadata or the download endpoint
  whose body parses as a JSON value other than \<open>null\<close> (so that its \<open>error\<close> field can
  be read): if the field is a non-empty string, the error of the component is this
  string; if the body has no such field, it is the generic message of the operation.
  The download produces no artifact and clears \<open>downloading\<close>; the metadata fetch, which
  sends its request only when neither the URL nor the campaign name is blank, leaves no
  metadata and clears \<open>loading\<close>.
\<close>

theorem failure_carries_server_message:
  assumes "\<not> ok r" and "json_body r = Parsed data" and "get_prop data (u ''error'') = Inr field"
  shows "(\<forall>m. field = Some (JStr m) \<and> m \<noteq> [] \<longrightarrow>
            error (fst (downloadMedia js api quality (Resolved r) w)) = m)
       \<and> (field = None \<longrightarrow>
            error (fst (downloadMedia js api quality (Resolved r) w)) = u ''Download failed'')
       \<and> artifacts (snd (downloadMedia js api quality (Resolved r) w)) = artifacts (snd w)
       \<and> \<not> downloading (fst (downloadMedia js api quality (Resolved r) w))
       \<and> (trim (mediaUrl (fst w)) \<noteq> [] \<and> trim (solidarityName (fst w)) \<noteq> [] \<longrightarrow>
            (\<forall>m. field = Some (JStr m) \<and> m \<noteq> [] \<longrightarrow>
               error (fst (fetchMetadata js api (Resolved r) w)) = m)
          \<and> (field = None \<longrightarrow>
               error (fst (fetchMetadata js api (Resolved r) w)) = u ''Failed to fetch metadata'')
          \<and> metadata (fst (fetchMetadata js api (Resolved r) w)) = JNull
          \<and> \<not> loading (fst (fetchMetadata js api (Resolved r) w)))"
  using assms
  by (auto simp: download_failure fetch_failure thrown_error_string thrown_error_absent)

theorem failure_carries_server_message_witness:
  "error (fst (downloadMedia example_engine example_api (u ''best'') (Resolved blocked_response)
      (example_ui, []))) = u ''blocked''
   \<and> artifacts (snd (downloadMedia example_engine example_api (u ''best'')
        (Resolved blocked_response) (example_ui, []))) = []
   \<and> \<not> downloading (fst (downloadMedia example_engine example_api (u ''best'')
        (Resolved blocked_response) (example_ui, [])))
   \<and> error (fst (fetchMetadata example_engine example_api (Resolved blocked_response)
        (example_ui, []))) = u ''blocked''
   \<and> error (fst (downloadMedia example_engine example_api (u ''best'')
        (Resolved (blocked_response\<lparr>json_body := Parsed (JObj [])\<rparr>)) (example_ui, [])))
       = u ''Download failed''
   \<and> error (fst (downloadMedia example_engine example_api (u ''best'') (Resolved blocked_response)
        (blank_url_ui, []))) = u ''blocked''"
proof -
  have 1: "\<not> ok blocked_response" "\<not> ok (blocked_response\<lparr>json_body := Parsed (JObj [])\<rparr>)"
    by (simp_all add: ok_def blocked_response_def)
  have 2: "json_body blocked_response = Parsed (JObj [(u ''error'', JStr (u ''blocked''))])"
    by (simp add: blocked_response_def)
  have 3: "get_prop (JObj [(u ''error'', JStr (u ''blocked''))]) (u ''error'')
      = Inr (Some (JStr (u ''blocked'')))"
    by simp
  have 5: "u ''blocked'' \<noteq> []" by (simp add: u_def)
  show ?thesis
    using failure_carries_server_message [OF 1(1) 2 3, of example_engine example_api "u ''best''"
        "(example_ui, [])"] 5 example_not_blank
      failure_carries_server_message [OF 1(2), of "JObj []" None example_engine example_api
        "u ''best''" "(example_ui, [])"]
      failure_carries_server_message [OF 1(1) 2 3, of example_engine example_api "u ''best''"
        "(blank_url_ui, [])"]
    by simp
qed

section \<open>The start of an attempt\<close>

text \<open>
  C8, as the claim states it, fails: when \<open>downloadMedia\<close> is first suspended, waiting
  for the network, the success message of the metadata fetch is still in place and
  \<open>downloading\<close> has been raised; when \<open>fetchMetadata\<close> is, \<open>loading\<close> has been raised.
\<close>

theorem attempt_start_changes_more:
  "snd (downloadMedia example_engine example_api (u ''best'') offline (example_ui, [])) =
     [Progress 0, download_request example_engine example_api (u ''best'') example_ui,
      Suspended (example_ui\<lparr>downloading := True, error := [], progress := 0\<rparr>)]
   \<and> success (example_ui\<lparr>downloading := True, error := [], progress := 0\<rparr>)
       = u ''Media information loaded successfully!''
   \<and> downloading (example_ui\<lparr>downloading := True, error := [], progress := 0\<rparr>)
       \<noteq> downloading example_ui
   \<and> snd (fetchMetadata example_engine example_api offline (example_ui, [])) =
     [metadata_request example_engine example_api example_ui,
      Suspended (example_ui\<lparr>loading := True, error := [], success := [], metadata := JNull\<rparr>)]
   \<and> loading (example_ui\<lparr>loading := True, error := [], success := [], metadata := JNull\<rparr>)
       \<noteq> loading example_ui"
  using example_not_blank
  by (simp add: downloadMedia_def download_try_def fetchMetadata_def fetch_try_def Let_def
      catch_error_def download_begin_def fetch_begin_def world_defs offline_def)
    (simp add: example_ui_def)

text \<open>
  C8, amended. A call of \<open>fetchMetadata\<close> that passes validation first resets the error
  and the success message, clears the stored metadata and sets \<open>loading\<close>, and nothing
  else: this is the state in which it sends its request and waits. A call that
  validation rejects is no attempt: it sets the error message and does nothing else. A
  call of \<open>downloadMedia\<close> first resets the error message, resets the progress to 0 and
  sets \<open>downloading\<close>: in the state in which it sends its request and waits, the URL,
  the campaign name, the metadata and \<open>loading\<close> are as they were.
\<close>

theorem attempt_start_effects:
  "(trim (mediaUrl s) \<noteq> [] \<and> trim (solidarityName s) \<noteq> [] \<longrightarrow>
      (\<exists>more. snd (fetchMetadata js api net (s, evs)) =
         evs @ [metadata_request js api s,
                Suspended (s\<lparr>loading := True, error := [], success := [], metadata := JNull\<rparr>)]
             @ more))
   \<and> (trim (mediaUrl s) = [] \<or> trim (solidarityName s) = [] \<longrightarrow>
      (\<exists>m. fetchMetadata js api net (s, evs) = (s\<lparr>error := m\<rparr>, evs)))
   \<and> (\<exists>s' more. snd (downloadMedia js api quality net (s, evs)) =
         evs @ [Progress 0, download_request js api quality s, Suspended s'] @ more
       \<and> error s' = [] \<and> progress s' = 0 \<and> downloading s'
       \<and> mediaUrl s' = mediaUrl s \<and> solidarityName s' = solidarityName s
       \<and> metadata s' = metadata s \<and> loading s' = loading s)"
proof (intro conjI impI)
  assume "trim (mediaUrl s) \<noteq> [] \<and> trim (solidarityName s) \<noteq> []"
  then show "\<exists>more. snd (fetchMetadata js api net (s, evs)) =
         evs @ [metadata_request js api s,
                Suspended (s\<lparr>loading := True, error := [], success := [], metadata := JNull\<rparr>)]
             @ more"
    using fetch_log_begins [of s js api net evs] by simp
next
  assume "trim (mediaUrl s) = [] \<or> trim (solidarityName s) = []"
  then show "\<exists>m. fetchMetadata js api net (s, evs) = (s\<lparr>error := m\<rparr>, evs)"
    by (auto simp: fetchMetadata_def Let_def setError_def)
next
  from download_log_begins [of js api quality net s evs] obtain more
    where "snd (downloadMedia js api quality net (s, evs)) =
      evs @ [Progress 0, download_request js api quality s,
             Suspended (s\<lparr>downloading := True, error := [], progress := 0\<rparr>)] @ more"
    by blast
  then show "\<exists>s' more. snd (downloadMedia js api quality net (s, evs)) =
         evs @ [Progress 0, download_request js api quality s, Suspended s'] @ more
       \<and> error s' = [] \<and> progress s' = 0 \<and> downloading s'
       \<and> mediaUrl s' = mediaUrl s \<and> solidarityName s' = solidarityName s
       \<and> metadata s' = metadata s \<and> loading s' = loading s"
    by (intro exI [of _ "s\<lparr>downloading := True, error := [], progress := 0\<rparr>"] exI [of _ more])
      simp
qed

theorem attempt_start_effects_witness:
  "(\<exists>more. snd (fetchMetadata example_engine example_api offline (example_ui, [])) =
      [] @ [metadata_request example_engine example_api example_ui,
            Suspended (example_ui\<lparr>loading := True, error := [], success := [], metadata := JNull\<rparr>)]
         @ more)
   \<and> (\<exists>m. fetchMetadata example_engine example_api offline (blank_url_ui, [])
         = (blank_url_ui\<lparr>error := m\<rparr>, []))"
  using attempt_start_effects [of example_ui example_engine example_api offline "[]" "u ''best''"]
    attempt_start_effects [of blank_url_ui example_engine example_api offline "[]" "u ''best''"]
    example_not_blank
  by (simp add: blank_url_ui_def trim_def u_def is_whitespace_def)

section \<open>The formatters at zero\<close>

text \<open>
  C9. At the number 0 each formatter returns what it returns for a missing value:
  \<open>formatDuration\<close> gives \<open>N/A\<close>, \<open>formatFileSize\<close> gives \<open>Unknown\<close> and
  \<open>formatNumber\<close> gives \<open>0\<close>, the same as for \<open>undefined\<close>.
\<close>

theorem formatters_at_zero:
  "formatDuration other_text (Some (JNum 0)) = u ''N/A''
   \<and> formatDuration other_text (Some (JNum 0)) = formatDuration other_text None
   \<and> formatFileSize size_text (Some (JNum 0)) = u ''Unknown''
   \<and> formatFileSize size_text (Some (JNum 0)) = formatFileSize size_text None
   \<and> formatNumber locale_text (Some (JNum 0)) = u ''0''
   \<and> formatNumber locale_text (Some (JNum 0)) = formatNumber locale_text None"
  by (simp add: formatDuration_def formatFileSize_def formatNumber_def)

section \<open>The exports\<close>

text \<open>
  C10. While no metadata is stored (\<open>metadata\<close> is \<open>null\<close>), the JSON export and the
  CSV export return at once: no file is offered and the state is the one before.
\<close>

theorem export_without_metadata:
  assumes "metadata (fst w) = JNull"
  shows "downloadMetadataJSON js now w = Inr w \<and> downloadMetadataCSV js now w = Inr w"
  using assms by (simp add: downloadMetadataJSON_def downloadMetadataCSV_def)

theorem export_without_metadata_witness:
  "downloadMetadataJSON example_engine (u ''2026-01-01T00:00:00.000Z'') (initial_ui, [])
     = Inr (initial_ui, [])
   \<and> downloadMetadataCSV example_engine (u ''2026-01-01T00:00:00.000Z'') (initial_ui, [])
     = Inr (initial_ui, [])"
  using export_without_metadata [of "(initial_ui, [])" example_engine "u ''2026-01-01T00:00:00.000Z''"]
  by (simp add: initial_ui_def)

text \<open>
  C6, as the claim states it, fails in one point: a platform that is not set is not left
  out of the JSON export but written as \<open>unknown\<close>.
\<close>

theorem json_export_platform_default:
  "well_formed (metadata bare_ui)
   \<and> optional_prop (metadata bare_ui) (u ''platform'') = None
   \<and> downloadMetadataJSON example_engine example_now (bare_ui, []) =
       Inr (bare_ui,
         [SaveText (u ''Climate Justice_undefined_metadata.json'') (u ''application/json'')
            (u ''{'' @ [0x0A]
             @ u ''  \"solidarity_campaign\": \"Climate Justice\",'' @ [0x0A]
             @ u ''  \"platform\": \"unknown\",'' @ [0x0A]
             @ u ''  \"url\": \"https://example.com/v/1\",'' @ [0x0A]
             @ u ''  \"archived_at\": \"2026-01-01T00:00:00.000Z\"'' @ [0x0A]
             @ u ''}'')])"
proof -
  have m: "metadata bare_ui = JObj [(u ''url'', JStr (u ''https://example.com/v/1''))]"
    "solidarityName bare_ui = u ''Climate Justice''"
    by (simp_all add: bare_ui_def example_ui_def)
  have p: "optional_prop (metadata bare_ui) (u ''platform'') = None"
    by (simp add: m optional_prop_def u_def)
  have d: "defined_properties (json_export_data example_now bare_ui) =
      [(u ''solidarity_campaign'', JStr (u ''Climate Justice'')),
       (u ''platform'', JStr (u ''unknown'')),
       (u ''url'', JStr (u ''https://example.com/v/1'')),
       (u ''archived_at'', JStr (u ''2026-01-01T00:00:00.000Z''))]"
    by (simp add: json_export_data_def m optional_prop_def or_else_def defined_properties_def
        example_now_def) (simp add: u_def)
  have q: "QuoteJSONString (u ''solidarity_campaign'') = u ''\"solidarity_campaign\"''"
    "QuoteJSONString (u ''platform'') = u ''\"platform\"''"
    "QuoteJSONString (u ''url'') = u ''\"url\"''"
    "QuoteJSONString (u ''archived_at'') = u ''\"archived_at\"''"
    "QuoteJSONString (u ''Climate Justice'') = u ''\"Climate Justice\"''"
    "QuoteJSONString (u ''unknown'') = u ''\"unknown\"''"
    "QuoteJSONString (u ''https://example.com/v/1'') = u ''\"https://example.com/v/1\"''"
    "QuoteJSONString (u ''2026-01-01T00:00:00.000Z'') = u ''\"2026-01-01T00:00:00.000Z\"''"
    by (simp_all add: QuoteJSONString_def u_def quote_unit_def is_high_surrogate_def
        is_low_surrogate_def)
  have t: "JSON_stringify example_engine (json_export_data example_now bare_ui) 2 =
      u ''{'' @ [0x0A]
      @ u ''  \"solidarity_campaign\": \"Climate Justice\",'' @ [0x0A]
      @ u ''  \"platform\": \"unknown\",'' @ [0x0A]
      @ u ''  \"url\": \"https://example.com/v/1\",'' @ [0x0A]
      @ u ''  \"archived_at\": \"2026-01-01T00:00:00.000Z\"'' @ [0x0A]
      @ u ''}''"
    by (simp add: JSON_stringify_def d wrap_json_def q numeral_2_eq_2) (simp add: u_def)
  have f: "downloadMetadataJSON example_engine example_now (bare_ui, []) =
       Inr (bare_ui,
         [SaveText (u ''Climate Justice_undefined_metadata.json'') (u ''application/json'')
            (JSON_stringify example_engine (json_export_data example_now bare_ui) 2)])"
    by (simp add: downloadMetadataJSON_def p and_then_def emit_def m(2)) (simp add: m(1) u_def)
  from bare_well_formed p f t show ?thesis by simp
qed

text \<open>
  C6, amended. For every well-formed MediaMetadata the JSON export builds an object with
  the properties \<open>solidarity_campaign\<close>, \<open>platform\<close>, \<open>title\<close>, \<open>uploader\<close>, \<open>url\<close>,
  \<open>description\<close>, \<open>duration\<close>, \<open>viewCount\<close>, \<open>likeCount\<close>, \<open>thumbnail\<close>,
  \<open>archived_at\<close> in this order, where a platform that is missing or empty is
  \<open>unknown\<close>. It never throws: it offers one file, whose text is an opening brace, one
  line for each property that is set, in the same order, indented by two blanks and
  separated by commas, and a closing brace on a line of its own; an optional field other
  than the platform that is not set has no line. The value of a property is written as
  \<open>JSON.stringify\<close> writes it, a number with the text the engine gives it.
\<close>

theorem json_export_object:
  assumes "well_formed (metadata s)"
  shows "json_export_data now s =
       [(u ''solidarity_campaign'', Some (JStr (solidarityName s))),
        (u ''platform'', Some (JStr (text_or (u ''unknown'') (optional_prop (metadata s) (u ''platform''))))),
        (u ''title'', optional_prop (metadata s) (u ''title'')),
        (u ''uploader'', optional_prop (metadata s) (u ''uploader'')),
        (u ''url'', optional_prop (metadata s) (u ''url'')),
        (u ''description'', optional_prop (metadata s) (u ''description'')),
        (u ''duration'', optional_prop (metadata s) (u ''duration'')),
        (u ''viewCount'', optional_prop (metadata s) (u ''viewCount'')),
        (u ''likeCount'', optional_prop (metadata s) (u ''likeCount'')),
        (u ''thumbnail'', optional_prop (metadata s) (u ''thumbnail'')),
        (u ''archived_at'', Some (JStr now))]
     \<and> downloadMetadataJSON js now (s, evs) =
       Inr (s, evs @
         [SaveText (solidarityName s @ u ''_'' @ plain_text (optional_prop (metadata s) (u ''platform''))
                      @ u ''_metadata.json'')
            (u ''application/json'')
            (u ''{'' @ [0x0A]
             @ u ''  '' @ QuoteJSONString (u ''solidarity_campaign'') @ u '': ''
             @ QuoteJSONString (solidarityName s)
             @ concat (map (\<lambda>(k, v). case v of
                    None \<Rightarrow> []
                  | Some x \<Rightarrow> u '','' @ [0x0A] @ u ''  '' @ QuoteJSONString k @ u '': ''
                               @ serialize js (u ''  '') (u ''  '') x)
                 [(u ''platform'', Some (JStr (text_or (u ''unknown'') (optional_prop (metadata s) (u ''platform''))))),
                  (u ''title'', optional_prop (metadata s) (u ''title'')),
                  (u ''uploader'', optional_prop (metadata s) (u ''uploader'')),
                  (u ''url'', optional_prop (metadata s) (u ''url'')),
                  (u ''description'', optional_prop (metadata s) (u ''description'')),
                  (u ''duration'', optional_prop (metadata s) (u ''duration'')),
                  (u ''viewCount'', optional_prop (metadata s) (u ''viewCount'')),
                  (u ''likeCount'', optional_prop (metadata s) (u ''likeCount'')),
                  (u ''thumbnail'', optional_prop (metadata s) (u ''thumbnail'')),
                  (u ''archived_at'', Some (JStr now))])
             @ [0x0A] @ u ''}'')])"
proof -
  have pl: "or_else (optional_prop (metadata s) (u ''platform'')) (Some (JStr (u ''unknown'')))
      = Some (JStr (text_or (u ''unknown'') (optional_prop (metadata s) (u ''platform''))))"
    by (rule text_or_absent_or_else, rule well_formed_text [OF assms]) simp
  have p: "to_string_opt js (optional_prop (metadata s) (u ''platform''))
      = Inr (plain_text (optional_prop (metadata s) (u ''platform'')))"
    by (rule text_or_absent_plain, rule well_formed_text [OF assms]) simp
  have data: "json_export_data now s =
       [(u ''solidarity_campaign'', Some (JStr (solidarityName s))),
        (u ''platform'', Some (JStr (text_or (u ''unknown'') (optional_prop (metadata s) (u ''platform''))))),
        (u ''title'', optional_prop (metadata s) (u ''title'')),
        (u ''uploader'', optional_prop (metadata s) (u ''uploader'')),
        (u ''url'', optional_prop (metadata s) (u ''url'')),
        (u ''description'', optional_prop (metadata s) (u ''description'')),
        (u ''duration'', optional_prop (metadata s) (u ''duration'')),
        (u ''viewCount'', optional_prop (metadata s) (u ''viewCount'')),
        (u ''likeCount'', optional_prop (metadata s) (u ''likeCount'')),
        (u ''thumbnail'', optional_prop (metadata s) (u ''thumbnail'')),
        (u ''archived_at'', Some (JStr now))]"
    unfolding json_export_data_def pl by (rule refl)
  have saved: "downloadMetadataJSON js now (s, evs) =
       Inr (s, evs @
         [SaveText (solidarityName s @ u ''_'' @ plain_text (optional_prop (metadata s) (u ''platform''))
                      @ u ''_metadata.json'')
            (u ''application/json'') (JSON_stringify js (json_export_data now s) 2)])"
    using well_formed_truthy [OF assms]
    by (simp add: downloadMetadataJSON_def p and_then_def emit_def)
  show ?thesis
    unfolding saved
    unfolding data JSON_stringify_layout
    by simp
qed

theorem json_export_object_witness:
  "downloadMetadataJSON example_engine example_now (example_ui, []) =
     Inr (example_ui,
       [SaveText (u ''Climate Justice_undefined_metadata.json'') (u ''application/json'')
          (u ''{'' @ [0x0A]
           @ u ''  \"solidarity_campaign\": \"Climate Justice\",'' @ [0x0A]
           @ u ''  \"platform\": \"unknown\",'' @ [0x0A]
           @ u ''  \"title\": \"Rally\",'' @ [0x0A]
           @ u ''  \"uploader\": \"ActivistOrg\",'' @ [0x0A]
           @ u ''  \"url\": \"https://example.com/v/1\",'' @ [0x0A]
           @ u ''  \"viewCount\": 1500,'' @ [0x0A]
           @ u ''  \"archived_at\": \"2026-01-01T00:00:00.000Z\"'' @ [0x0A]
           @ u ''}'')])"
proof -
  have q: "QuoteJSONString (u ''solidarity_campaign'') = u ''\"solidarity_campaign\"''"
    "QuoteJSONString (u ''platform'') = u ''\"platform\"''"
    "QuoteJSONString (u ''title'') = u ''\"title\"''"
    "QuoteJSONString (u ''uploader'') = u ''\"uploader\"''"
    "QuoteJSONString (u ''url'') = u ''\"url\"''"
    "QuoteJSONString (u ''viewCount'') = u ''\"viewCount\"''"
    "QuoteJSONString (u ''archived_at'') = u ''\"archived_at\"''"
    "QuoteJSONString (u ''Climate Justice'') = u ''\"Climate Justice\"''"
    "QuoteJSONString (u ''unknown'') = u ''\"unknown\"''"
    "QuoteJSONString (u ''Rally'') = u ''\"Rally\"''"
    "QuoteJSONString (u ''ActivistOrg'') = u ''\"ActivistOrg\"''"
    "QuoteJSONString (u ''https://example.com/v/1'') = u ''\"https://example.com/v/1\"''"
    "QuoteJSONString (u ''2026-01-01T00:00:00.000Z'') = u ''\"2026-01-01T00:00:00.000Z\"''"
    by (simp_all add: QuoteJSONString_def u_def quote_unit_def is_high_surrogate_def
        is_low_surrogate_def)
  have m: "optional_prop (metadata example_ui) (u ''platform'') = None"
    "optional_prop (metadata example_ui) (u ''title'') = Some (JStr (u ''Rally''))"
    "optional_prop (metadata example_ui) (u ''uploader'') = Some (JStr (u ''ActivistOrg''))"
    "optional_prop (metadata example_ui) (u ''url'') = Some (JStr (u ''https://example.com/v/1''))"
    "optional_prop (metadata example_ui) (u ''description'') = None"
    "optional_prop (metadata example_ui) (u ''duration'') = None"
    "optional_prop (metadata example_ui) (u ''viewCount'') = Some (JNum 1500)"
    "optional_prop (metadata example_ui) (u ''likeCount'') = None"
    "optional_prop (metadata example_ui) (u ''thumbnail'') = None"
    by (simp_all add: example_ui_def optional_prop_def u_def)
  have s: "solidarityName example_ui = u ''Climate Justice''"
    by (simp add: example_ui_def)
  show ?thesis
    using json_export_object [OF example_well_formed, of example_now example_engine "[]"]
    by (simp add: m s q number_to_string_1500 text_or_def plain_text_def example_now_def)
      (simp add: u_def)
qed

text \<open>
  C7. The file of the CSV export has the header \<open>Field,Value\<close> and the nine lines of
  Solidarity Campaign, Platform, Title, Uploader, URL, Views, Likes, Duration and
  Archived At in this order, with \<open>unknown\<close> for the missing platform and \<open>0\<close> for the
  missing likes and duration (for every well-formed value: \<open>csv_lines_well_formed\<close>). It
  is not a table of two columns for every well-formed MediaMetadata: the platform, the
  uploader, the URL and the numbers are written as they are, and with the uploader
  \<open>Doe, John\<close> the file read back as CSV has three fields in the row of the uploader.
\<close>

theorem csv_export_three_fields:
  "well_formed (metadata comma_ui)
   \<and> downloadMetadataCSV js example_now (comma_ui, []) =
       Inr (comma_ui,
         [SaveText (u ''Climate Justice_undefined_metadata.csv'') (u ''text/csv'')
            (u ''Field,Value'' @ [0x0A]
             @ u ''Solidarity Campaign,\"Climate Justice\"'' @ [0x0A]
             @ u ''Platform,unknown'' @ [0x0A]
             @ u ''Title,\"Rally\"'' @ [0x0A]
             @ u ''Uploader,Doe, John'' @ [0x0A]
             @ u ''URL,https://example.com/v/1'' @ [0x0A]
             @ u ''Views,1500'' @ [0x0A]
             @ u ''Likes,0'' @ [0x0A]
             @ u ''Duration,0'' @ [0x0A]
             @ u ''Archived At,2026-01-01T00:00:00.000Z'')])
   \<and> read_csv
        (u ''Field,Value'' @ [0x0A]
         @ u ''Solidarity Campaign,\"Climate Justice\"'' @ [0x0A]
         @ u ''Platform,unknown'' @ [0x0A]
         @ u ''Title,\"Rally\"'' @ [0x0A]
         @ u ''Uploader,Doe, John'' @ [0x0A]
         @ u ''URL,https://example.com/v/1'' @ [0x0A]
         @ u ''Views,1500'' @ [0x0A]
         @ u ''Likes,0'' @ [0x0A]
         @ u ''Duration,0'' @ [0x0A]
         @ u ''Archived At,2026-01-01T00:00:00.000Z'') =
       Some [[u ''Field'', u ''Value''],
             [u ''Solidarity Campaign'', u ''Climate Justice''],
             [u ''Platform'', u ''unknown''],
             [u ''Title'', u ''Rally''],
             [u ''Uploader'', u ''Doe'', u '' John''],
             [u ''URL'', u ''https://example.com/v/1''],
             [u ''Views'', u ''1500''],
             [u ''Likes'', u ''0''],
             [u ''Duration'', u ''0''],
             [u ''Archived At'', u ''2026-01-01T00:00:00.000Z'']]"
proof -
  have m: "optional_prop (metadata comma_ui) (u ''platform'') = None"
    "optional_prop (metadata comma_ui) (u ''title'') = Some (JStr (u ''Rally''))"
    "optional_prop (metadata comma_ui) (u ''uploader'') = Some (JStr (u ''Doe, John''))"
    "optional_prop (metadata comma_ui) (u ''url'') = Some (JStr (u ''https://example.com/v/1''))"
    "optional_prop (metadata comma_ui) (u ''duration'') = None"
    "optional_prop (metadata comma_ui) (u ''viewCount'') = Some (JNum 1500)"
    "optional_prop (metadata comma_ui) (u ''likeCount'') = None"
    by (simp_all add: comma_ui_def optional_prop_def u_def)
  have s: "solidarityName comma_ui = u ''Climate Justice''" "fst (comma_ui, []) = comma_ui"
    by (simp_all add: comma_ui_def example_ui_def)
  have l: "csv_lines js example_now comma_ui =
     Inr [u ''Field,Value'',
          u ''Solidarity Campaign,\"Climate Justice\"'',
          u ''Platform,unknown'',
          u ''Title,\"Rally\"'',
          u ''Uploader,Doe, John'',
          u ''URL,https://example.com/v/1'',
          u ''Views,1500'',
          u ''Likes,0'',
          u ''Duration,0'',
          u ''Archived At,2026-01-01T00:00:00.000Z'']"
    by (simp add: csv_lines_well_formed [OF comma_well_formed] m s number_or_zero_def
        number_to_string_1500 text_or_def plain_text_def)
      (simp add: example_now_def csv_escaped_def double_quotes_def u_def)
  have f: "downloadMetadataCSV js example_now (comma_ui, []) =
       Inr (comma_ui,
         [SaveText (u ''Climate Justice_undefined_metadata.csv'') (u ''text/csv'')
            (u ''Field,Value'' @ [0x0A]
             @ u ''Solidarity Campaign,\"Climate Justice\"'' @ [0x0A]
             @ u ''Platform,unknown'' @ [0x0A]
             @ u ''Title,\"Rally\"'' @ [0x0A]
             @ u ''Uploader,Doe, John'' @ [0x0A]
             @ u ''URL,https://example.com/v/1'' @ [0x0A]
             @ u ''Views,1500'' @ [0x0A]
             @ u ''Likes,0'' @ [0x0A]
             @ u ''Duration,0'' @ [0x0A]
             @ u ''Archived At,2026-01-01T00:00:00.000Z'')])"
    using well_formed_truthy [OF comma_well_formed]
    by (simp add: downloadMetadataCSV_def s l m and_then_def emit_def) (simp add: u_def)
  have r: "read_csv
        (u ''Field,Value'' @ [0x0A]
         @ u ''Solidarity Campaign,\"Climate Justice\"'' @ [0x0A]
         @ u ''Platform,unknown'' @ [0x0A]
         @ u ''Title,\"Rally\"'' @ [0x0A]
         @ u ''Uploader,Doe, John'' @ [0x0A]
         @ u ''URL,https://example.com/v/1'' @ [0x0A]
         @ u ''Views,1500'' @ [0x0A]
         @ u ''Likes,0'' @ [0x0A]
         @ u ''Duration,0'' @ [0x0A]
         @ u ''Archived At,2026-01-01T00:00:00.000Z'') =
       Some [[u ''Field'', u ''Value''],
             [u ''Solidarity Campaign'', u ''Climate Justice''],
             [u ''Platform'', u ''unknown''],
             [u ''Title'', u ''Rally''],
             [u ''Uploader'', u ''Doe'', u '' John''],
             [u ''URL'', u ''https://example.com/v/1''],
             [u ''Views'', u ''1500''],
             [u ''Likes'', u ''0''],
             [u ''Duration'', u ''0''],
             [u ''Archived At'', u ''2026-01-01T00:00:00.000Z'']]"
    by (simp add: read_csv_def u_def)
  from comma_well_formed f r show ?thesis by simp
qed

text \<open>
  C4. The title is written the escaped way, and reading its line back gives the title
  again, whatever it holds (\<open>escaped_field_round_trip\<close>). The other values are not: the
  campaign name is put in quotes with the quotes inside left single, and the platform,
  the uploader and the URL are written as they are. With a campaign name \<open>Say "no"\<close>
  and an uploader \<open>Doe, John\<close> the line of the campaign cannot be read back and the
  line of the uploader reads back as three fields.
\<close>

theorem csv_export_unescaped_fields:
  "csv_lines js example_now quoting_ui =
     Inr [u ''Field,Value'',
          u ''Solidarity Campaign,\"Say \"no\"\"'',
          u ''Platform,unknown'',
          u ''Title,\"He said \"\"hi\"\", twice\"'',
          u ''Uploader,Doe, John'',
          u ''URL,https://example.com/v/1'',
          u ''Views,0'',
          u ''Likes,0'',
          u ''Duration,0'',
          u ''Archived At,2026-01-01T00:00:00.000Z'']
   \<and> read_csv_record (u ''Title,\"He said \"\"hi\"\", twice\"'') = Some [u ''Title'', u ''He said \"hi\", twice'']
   \<and> read_csv_record (u ''Solidarity Campaign,\"Say \"no\"\"'') = None
   \<and> read_csv_record (u ''Uploader,Doe, John'') = Some [u ''Uploader'', u ''Doe'', u '' John'']"
proof -
  have l: "csv_lines js example_now quoting_ui =
     Inr [u ''Field,Value'',
          u ''Solidarity Campaign,\"Say \"no\"\"'',
          u ''Platform,unknown'',
          u ''Title,\"He said \"\"hi\"\", twice\"'',
          u ''Uploader,Doe, John'',
          u ''URL,https://example.com/v/1'',
          u ''Views,0'',
          u ''Likes,0'',
          u ''Duration,0'',
          u ''Archived At,2026-01-01T00:00:00.000Z'']"
    by (simp add: csv_lines_well_formed [OF quoting_well_formed])
      (simp add: quoting_ui_def example_now_def optional_prop_def plain_text_def
        text_or_def number_or_zero_def csv_escaped_def double_quotes_def u_def)
  have t: "read_csv_record (u ''Title,\"He said \"\"hi\"\", twice\"'') = Some [u ''Title'', u ''He said \"hi\", twice'']"
    by (simp add: read_csv_record_def u_def)
  have c: "read_csv_record (u ''Solidarity Campaign,\"Say \"no\"\"'') = None"
    by (simp add: read_csv_record_def u_def)
  have p: "read_csv_record (u ''Uploader,Doe, John'') = Some [u ''Uploader'', u ''Doe'', u '' John'']"
    by (simp add: read_csv_record_def u_def)
  from l t c p show ?thesis by simp
qed

end
